theory Spec2Isabelle
  imports Main "HOL-Library.Word"
begin

unbundle bit_operations_syntax

section \<open>Strings\<close>

text \<open>
  A JavaScript string is modelled as a \<open>string\<close>: a list of characters with code units
  0 to 255 (the Latin-1 range), so \<open>length\<close> is the \<open>.length\<close> of such a string.
\<close>

definition is_space :: "char \<Rightarrow> bool" where
  \<comment> \<open>the characters of the regular expression class \<open>\s\<close>, which are also the ones
      \<open>String.prototype.trim\<close> removes: TAB, LF, VT, FF, CR, SPACE, NBSP\<close>
  "is_space c = (of_char c \<in> {9, 10, 11, 12, 13, 32, 160 :: nat})"

definition trim :: "string \<Rightarrow> string" where
  \<comment> \<open>\<open>String.prototype.trim\<close>\<close>
  "trim s = rev (dropWhile is_space (rev (dropWhile is_space s)))"

function collapse_ws :: "string \<Rightarrow> string" where
  \<comment> \<open>\<open>.replace(/\s+/g, ' ')\<close>: every maximal run of whitespace becomes one space\<close>
  "collapse_ws [] = []"
| "collapse_ws (c # cs) =
     (if is_space c then CHR '' '' # collapse_ws (dropWhile is_space cs)
      else c # collapse_ws cs)"
  by pat_completeness auto
termination
  by (relation "measure length") (auto simp: less_Suc_eq_le length_dropWhile_le)

definition lower_char :: "char \<Rightarrow> char" where
  \<comment> \<open>\<open>toLowerCase\<close> on one code unit below 256: A-Z, and the Latin-1 capitals
      U+00C0 to U+00DE except the multiplication sign U+00D7\<close>
  "lower_char c =
     (let n = of_char c :: nat in
      if (65 \<le> n \<and> n \<le> 90) \<or> (192 \<le> n \<and> n \<le> 222 \<and> n \<noteq> 215)
      then char_of (n + 32) else c)"

definition toLowerCase :: "string \<Rightarrow> string" where
  "toLowerCase s = map lower_char s"

definition is_lower_az :: "char \<Rightarrow> bool" where
  \<comment> \<open>the class \<open>[a-z]\<close>\<close>
  "is_lower_az c = (97 \<le> (of_char c :: nat) \<and> (of_char c :: nat) \<le> 122)"

definition strip_non_letters :: "string \<Rightarrow> string" where
  \<comment> \<open>\<open>.replace(/[^a-z]/g, '')\<close>\<close>
  "strip_non_letters s = filter is_lower_az s"

fun includes_str :: "string \<Rightarrow> string \<Rightarrow> bool" where
  \<comment> \<open>\<open>hay.includes(needle)\<close>: the needle occurs as a contiguous substring\<close>
  "includes_str [] needle = (needle = [])"
| "includes_str (c # cs) needle = (take (length needle) (c # cs) = needle \<or> includes_str cs needle)"

section \<open>Identifier derivation (src/lib/id.ts)\<close>

definition normalizeName :: "string \<Rightarrow> string" where
  "normalizeName name = strip_non_letters (toLowerCase (collapse_ws (trim name)))"

subsection \<open>SHA-256 and HMAC, as \<open>crypto.createHmac('sha256', key)\<close> computes them\<close>

type_synonym byte = "8 word"
type_synonym u32 = "32 word"

definition utf8_encode :: "string \<Rightarrow> byte list" where
  \<comment> \<open>the UTF-8 bytes of a string of code units below 256: one byte below 128, two above\<close>
  "utf8_encode s = concat (map (\<lambda>c.
     let n = of_char c :: nat in
     if n < 128 then [of_nat n] else [of_nat (192 + n div 64), of_nat (128 + n mod 64)]) s)"

definition rotr :: "nat \<Rightarrow> u32 \<Rightarrow> u32" where
  "rotr n x = drop_bit n x OR push_bit (32 - n) x"

definition Ch :: "u32 \<Rightarrow> u32 \<Rightarrow> u32 \<Rightarrow> u32" where
  "Ch x y z = (x AND y) XOR (NOT x AND z)"

definition Maj :: "u32 \<Rightarrow> u32 \<Rightarrow> u32 \<Rightarrow> u32" where
  "Maj x y z = (x AND y) XOR (x AND z) XOR (y AND z)"

definition Sigma0 :: "u32 \<Rightarrow> u32" where
  "Sigma0 x = rotr 2 x XOR rotr 13 x XOR rotr 22 x"

definition Sigma1 :: "u32 \<Rightarrow> u32" where
  "Sigma1 x = rotr 6 x XOR rotr 11 x XOR rotr 25 x"

definition sigma0 :: "u32 \<Rightarrow> u32" where
  "sigma0 x = rotr 7 x XOR rotr 18 x XOR drop_bit 3 x"

definition sigma1 :: "u32 \<Rightarrow> u32" where
  "sigma1 x = rotr 17 x XOR rotr 19 x XOR drop_bit 10 x"

definition sha256_K :: "u32 list" where
  "sha256_K =
    [0x428A2F98, 0x71374491, 0xB5C0FBCF, 0xE9B5DBA5, 0x3956C25B, 0x59F111F1, 0x923F82A4, 0xAB1C5ED5,
     0xD807AA98, 0x12835B01, 0x243185BE, 0x550C7DC3, 0x72BE5D74, 0x80DEB1FE, 0x9BDC06A7, 0xC19BF174,
     0xE49B69C1, 0xEFBE4786, 0x0FC19DC6, 0x240CA1CC, 0x2DE92C6F, 0x4A7484AA, 0x5CB0A9DC, 0x76F988DA,
     0x983E5152, 0xA831C66D, 0xB00327C8, 0xBF597FC7, 0xC6E00BF3, 0xD5A79147, 0x06CA6351, 0x14292967,
     0x27B70A85, 0x2E1B2138, 0x4D2C6DFC, 0x53380D13, 0x650A7354, 0x766A0ABB, 0x81C2C92E, 0x92722C85,
     0xA2BFE8A1, 0xA81A664B, 0xC24B8B70, 0xC76C51A3, 0xD192E819, 0xD6990624, 0xF40E3585, 0x106AA070,
     0x19A4C116, 0x1E376C08, 0x2748774C, 0x34B0BCB5, 0x391C0CB3, 0x4ED8AA4A, 0x5B9CCA4F, 0x682E6FF3,
     0x748F82EE, 0x78A5636F, 0x84C87814, 0x8CC70208, 0x90BEFFFA, 0xA4506CEB, 0xBEF9A3F7, 0xC67178F2]"

type_synonym sha_state = "u32 \<times> u32 \<times> u32 \<times> u32 \<times> u32 \<times> u32 \<times> u32 \<times> u32"

definition sha256_H0 :: sha_state where
  "sha256_H0 =
    (0x6A09E667, 0xBB67AE85, 0x3C6EF372, 0xA54FF53A, 0x510E527F, 0x9B05688C, 0x1F83D9AB, 0x5BE0CD19)"

fun be32 :: "byte list \<Rightarrow> u32" where
  \<comment> \<open>a big-endian 32-bit word from its bytes\<close>
  "be32 bs = foldl (\<lambda>w b. push_bit 8 w OR ucast b) 0 bs"

fun words_of :: "byte list \<Rightarrow> u32 list" where
  "words_of (a # b # c # d # bs) = be32 [a, b, c, d] # words_of bs"
| "words_of _ = []"

fun extend :: "nat \<Rightarrow> u32 list \<Rightarrow> u32 list" where
  \<comment> \<open>the message schedule: each further word from the words 2, 7, 15 and 16 places back\<close>
  "extend 0 w = w"
| "extend (Suc n) w =
     (let t = length w in
      extend n (w @ [sigma1 (w ! (t - 2)) + w ! (t - 7) + sigma0 (w ! (t - 15)) + w ! (t - 16)]))"

fun sha_round :: "sha_state \<Rightarrow> u32 \<times> u32 \<Rightarrow> sha_state" where
  "sha_round (a, b, c, d, e, f, g, h) (k, w) =
     (let t1 = h + Sigma1 e + Ch e f g + k + w;
          t2 = Sigma0 a + Maj a b c
      in (t1 + t2, a, b, c, d + t1, e, f, g))"

fun add_state :: "sha_state \<Rightarrow> sha_state \<Rightarrow> sha_state" where
  "add_state (a, b, c, d, e, f, g, h) (a', b', c', d', e', f', g', h') =
     (a + a', b + b', c + c', d + d', e + e', f + f', g + g', h + h')"

definition compress :: "sha_state \<Rightarrow> byte list \<Rightarrow> sha_state" where
  \<comment> \<open>one 64-byte block\<close>
  "compress H block =
     add_state H (foldl sha_round H (zip sha256_K (extend 48 (words_of block))))"

definition sha_pad :: "byte list \<Rightarrow> byte list" where
  \<comment> \<open>the bit 1, zeros up to 56 modulo 64, then the length in bits as 64 bits big-endian\<close>
  "sha_pad m =
     (let n = length m; bits = (of_nat (8 * n) :: 64 word) in
      m @ [0x80] @ replicate ((119 - n mod 64) mod 64) 0 @
      map (\<lambda>i. ucast (drop_bit (8 * (7 - i)) bits)) [0 ..< 8])"

function blocks :: "byte list \<Rightarrow> byte list list" where
  "blocks bs = (if length bs < 64 then [] else take 64 bs # blocks (drop 64 bs))"
  by pat_completeness auto
termination
  by (relation "measure length") auto

declare blocks.simps [simp del]

fun bytes_of_state :: "sha_state \<Rightarrow> byte list" where
  "bytes_of_state (a, b, c, d, e, f, g, h) =
     concat (map (\<lambda>w. [ucast (drop_bit 24 w), ucast (drop_bit 16 w), ucast (drop_bit 8 w), ucast w])
       [a, b, c, d, e, f, g, h])"

definition sha256 :: "byte list \<Rightarrow> byte list" where
  "sha256 m = bytes_of_state (foldl compress sha256_H0 (blocks (sha_pad m)))"

definition hmac_sha256 :: "byte list \<Rightarrow> byte list \<Rightarrow> byte list" where
  \<comment> \<open>RFC 2104 with block size 64: a longer key is hashed first, a shorter one zero-padded\<close>
  "hmac_sha256 key msg =
     (let k0 = (if length key > 64 then sha256 key else key);
          k = k0 @ replicate (64 - length k0) 0
      in sha256 (map (\<lambda>b. b XOR 0x5c) k @ sha256 (map (\<lambda>b. b XOR 0x36) k @ msg)))"

definition hex_digit :: "nat \<Rightarrow> char" where
  "hex_digit n = ''0123456789abcdef'' ! (n mod 16)"

definition hex :: "byte list \<Rightarrow> string" where
  \<comment> \<open>\<open>digest('hex')\<close>: two lowercase hexadecimal digits per byte\<close>
  "hex bs = concat (map (\<lambda>b. [hex_digit (unat b div 16), hex_digit (unat b mod 16)]) bs)"

definition is_lower_hex :: "char \<Rightarrow> bool" where
  "is_lower_hex c = (c \<in> set ''0123456789abcdef'')"

definition if_truthy :: "string option \<Rightarrow> (string \<Rightarrow> 'a) \<Rightarrow> 'a \<Rightarrow> 'a" where
  \<comment> \<open>\<open>v ? f(v) : d\<close> for an optional string \<open>v\<close>: \<open>undefined\<close> (\<open>None\<close>) and the empty
      string are falsy, every other string is truthy\<close>
  "if_truthy v f d = (case v of None \<Rightarrow> d | Some s \<Rightarrow> if s = [] then d else f s)"

definition or_else :: "string option \<Rightarrow> string \<Rightarrow> string" where
  \<comment> \<open>\<open>v || d\<close>\<close>
  "or_else v d = if_truthy v (\<lambda>s. s) d"

definition makeHashedId :: "string option \<Rightarrow> string \<Rightarrow> string" where
  \<comment> \<open>the first argument is \<open>process.env.HASH_SECRET\<close>\<close>
  "makeHashedId HASH_SECRET firstName =
     (let normalized = normalizeName firstName;
          secret = or_else HASH_SECRET ''default-secret''
      in take 16 (hex (hmac_sha256 (utf8_encode secret) (utf8_encode normalized))))"

section \<open>The send endpoint (src/app/api/send/route.ts)\<close>

subsection \<open>Request bodies and the validation schema\<close>

datatype json =
    JNull
  | JBool bool
  | JNum int
  | JStr string
  | JArr "json list"
  | JObj "(string \<times> json) list"
  \<comment> \<open>a parsed JSON value; an object is the list of its properties, looked up with \<open>map_of\<close>\<close>

datatype issue_code = invalid_type | too_small | too_big | invalid_string

type_synonym issue = "string list \<times> issue_code"
  \<comment> \<open>the path of the field and what is wrong with it\<close>

definition is_alpha :: "char \<Rightarrow> bool" where
  \<comment> \<open>\<open>[A-Za-z]\<close>\<close>
  "is_alpha c = (let n = of_char c :: nat in (65 \<le> n \<and> n \<le> 90) \<or> (97 \<le> n \<and> n \<le> 122))"

definition is_alnum :: "char \<Rightarrow> bool" where
  \<comment> \<open>\<open>[A-Za-z0-9]\<close>\<close>
  "is_alnum c = (let n = of_char c :: nat in is_alpha c \<or> (48 \<le> n \<and> n \<le> 57))"

definition local_char :: "char \<Rightarrow> bool" where
  \<comment> \<open>\<open>[A-Za-z0-9_'+\-\.]\<close>\<close>
  "local_char c = (is_alnum c \<or> c \<in> {CHR ''_'', CHR 0x27, CHR ''+'', CHR ''-'', CHR ''.''})"

definition local_last_char :: "char \<Rightarrow> bool" where
  \<comment> \<open>\<open>[A-Za-z0-9_+-]\<close>\<close>
  "local_last_char c = (is_alnum c \<or> c \<in> {CHR ''_'', CHR ''+'', CHR ''-''})"

definition label_char :: "char \<Rightarrow> bool" where
  \<comment> \<open>\<open>[A-Za-z0-9\-]\<close>\<close>
  "label_char c = (is_alnum c \<or> c = CHR ''-'')"

fun split_on :: "char \<Rightarrow> string \<Rightarrow> string list" where
  \<comment> \<open>the pieces between the occurrences of a separator; never the empty list\<close>
  "split_on d [] = [[]]"
| "split_on d (c # cs) =
     (if c = d then [] # split_on d cs
      else (case split_on d cs of [] \<Rightarrow> [[c]] | x # xs \<Rightarrow> (c # x) # xs))"

definition label_ok :: "string \<Rightarrow> bool" where
  \<comment> \<open>\<open>[A-Za-z0-9][A-Za-z0-9\-]*\<close>\<close>
  "label_ok l = (case l of [] \<Rightarrow> False | c # cs \<Rightarrow> is_alnum c \<and> list_all label_char cs)"

definition valid_domain :: "string \<Rightarrow> bool" where
  \<comment> \<open>\<open>([A-Za-z0-9][A-Za-z0-9\-]*\.)+[A-Za-z]{2,}\<close> on the whole rest of the string:
      one or more labels, each followed by a dot, then two or more letters\<close>
  "valid_domain d =
     (let parts = split_on CHR ''.'' d; labels = butlast parts; tld = last parts
      in labels \<noteq> [] \<and> list_all label_ok labels \<and> 2 \<le> length tld \<and> list_all is_alpha tld)"

definition is_email :: "string \<Rightarrow> bool" where
  \<comment> \<open>the check behind \<open>z.string().email()\<close>, zod's regular expression
      \<open>^(?!\.)(?!.*\.\.)([A-Za-z0-9_'+\-\.]*)[A-Za-z0-9_+-]@([A-Za-z0-9][A-Za-z0-9\-]*\.)+[A-Za-z]{2,}$\<close>:
      the local part is everything before the first \<open>@\<close>, which none of its characters is\<close>
  "is_email s =
     (let local_part = takeWhile (\<lambda>c. c \<noteq> CHR ''@'') s;
          rest = dropWhile (\<lambda>c. c \<noteq> CHR ''@'') s
      in rest \<noteq> [] \<and> local_part \<noteq> [] \<and> hd s \<noteq> CHR ''.'' \<and> \<not> includes_str s ''..'' \<and>
         list_all local_char local_part \<and> local_last_char (last local_part) \<and>
         valid_domain (tl rest))"

definition chk_min :: "nat \<Rightarrow> string \<Rightarrow> issue_code list" where
  \<comment> \<open>\<open>.min(n)\<close>\<close>
  "chk_min n s = (if length s < n then [too_small] else [])"

definition chk_max :: "nat \<Rightarrow> string \<Rightarrow> issue_code list" where
  \<comment> \<open>\<open>.max(n)\<close>\<close>
  "chk_max n s = (if length s > n then [too_big] else [])"

definition chk_email :: "string \<Rightarrow> issue_code list" where
  \<comment> \<open>\<open>.email()\<close>\<close>
  "chk_email s = (if is_email s then [] else [invalid_string])"

definition z_string :: "(string \<Rightarrow> issue_code list) \<Rightarrow> json option \<Rightarrow> issue_code list + string" where
  \<comment> \<open>\<open>z.string()\<close> with its checks, which all run: a missing property (\<open>None\<close>) or a value
      that is not a string is an \<open>invalid_type\<close> issue\<close>
  "z_string checks v =
     (case v of
        Some (JStr s) \<Rightarrow> (if checks s = [] then Inr s else Inl (checks s))
      | _ \<Rightarrow> Inl [invalid_type])"

definition z_optional :: "(json option \<Rightarrow> issue_code list + string) \<Rightarrow> json option
    \<Rightarrow> issue_code list + string option" where
  \<comment> \<open>\<open>.optional()\<close>: a missing property is accepted as \<open>undefined\<close>\<close>
  "z_optional p v =
     (case v of
        None \<Rightarrow> Inr None
      | Some _ \<Rightarrow> (case p v of Inl is \<Rightarrow> Inl is | Inr s \<Rightarrow> Inr (Some s)))"

record SendPayload =
  staffId :: string
  name :: string
  email :: string
  subject :: "string option"
  message :: string

definition issues_at :: "string \<Rightarrow> issue_code list + 'a \<Rightarrow> issue list" where
  "issues_at key r = (case r of Inl is \<Rightarrow> map (\<lambda>i. ([key], i)) is | Inr _ \<Rightarrow> [])"

definition sendSchema_parse :: "json \<Rightarrow> issue list + SendPayload" where
  \<comment> \<open>\<open>sendSchema.parse(body)\<close>: \<open>Inl\<close> is the thrown \<open>ZodError\<close> with its issues\<close>
  "sendSchema_parse body =
     (case body of
        JObj props \<Rightarrow>
          (let get = map_of props;
               r_staffId = z_string (\<lambda>s. chk_min 8 s @ chk_max 128 s) (get ''staffId'');
               r_name = z_string (\<lambda>s. chk_min 1 s @ chk_max 120 s) (get ''name'');
               r_email = z_string (\<lambda>s. chk_email s @ chk_max 254 s) (get ''email'');
               r_subject = z_optional (z_string (\<lambda>s. chk_max 200 s)) (get ''subject'');
               r_message = z_string (\<lambda>s. chk_min 1 s @ chk_max 5000 s) (get ''message'')
           in case (r_staffId, r_name, r_email, r_subject, r_message) of
                (Inr i, Inr n, Inr e, Inr s, Inr m) \<Rightarrow>
                  Inr \<lparr>staffId = i, name = n, email = e, subject = s, message = m\<rparr>
              | _ \<Rightarrow>
                  Inl (issues_at ''staffId'' r_staffId @ issues_at ''name'' r_name @
                       issues_at ''email'' r_email @ issues_at ''subject'' r_subject @
                       issues_at ''message'' r_message))
      | _ \<Rightarrow> Inl [([], invalid_type)])"

subsection \<open>Rendering\<close>

definition replace_all :: "char \<Rightarrow> string \<Rightarrow> string \<Rightarrow> string" where
  \<comment> \<open>\<open>text.replace(/c/g, rep)\<close> for a single character \<open>c\<close>\<close>
  "replace_all c rep text = concat (map (\<lambda>x. if x = c then rep else [x]) text)"

definition sanitizeHtml :: "string \<Rightarrow> string" where
  \<open>sanitizeHtml text =
     replace_all CHR ''/'' ''&#x2F;''
       (replace_all CHR 0x27 ''&#x27;''
         (replace_all CHR ''"'' ''&quot;''
           (replace_all CHR ''>'' ''&gt;''
             (replace_all CHR ''<'' ''&lt;'' text))))\<close>

definition join_lines :: "string list \<Rightarrow> string" where
  \<comment> \<open>the lines of a template literal, with a line feed between two of them\<close>
  "join_lines ls = concat (map (\<lambda>l. l @ [CHR 0x0A]) (butlast ls)) @ last ls"

definition renderHtml :: "SendPayload \<Rightarrow> string" where
  \<open>renderHtml payload =
     (let sanitizedName = sanitizeHtml (name payload);
          sanitizedMessage = sanitizeHtml (message payload);
          subject = if_truthy (subject payload) sanitizeHtml (''New message from '' @ sanitizedName)
      in join_lines
       ['''',
        ''    <!DOCTYPE html>'',
        ''    <html>'',
        ''    <head>'',
        ''      <meta charset="utf-8">'',
        ''      <title>'' @ subject @ ''</title>'',
        ''    </head>'',
        ''    <body style="font-family: Arial, sans-serif; line-height: 1.6; color: #333;">'',
        ''      <div style="max-width: 600px; margin: 0 auto; padding: 20px;">'',
        ''        <h2 style="color: #2563eb;">New Contact Form Submission</h2>'',
        ''        '',
        ''        <div style="background: #f8fafc; padding: 20px; border-radius: 8px; margin: 20px 0;">'',
        ''          <p><strong>From:</strong> '' @ sanitizedName @ '' ('' @ email payload @ '')</p>'',
        ''          '' @ if_truthy (SendPayload.subject payload)
                          (\<lambda>_. ''<p><strong>Subject:</strong> '' @ subject @ ''</p>'') '''',
        ''        </div>'',
        ''        '',
        ''        <div style="background: #ffffff; padding: 20px; border: 1px solid #e2e8f0; border-radius: 8px;">'',
        ''          <h3 style="margin-top: 0;">Message:</h3>'',
        ''          <p style="white-space: pre-wrap;">'' @ sanitizedMessage @ ''</p>'',
        ''        </div>'',
        ''        '',
        ''        <div style="margin-top: 20px; padding: 20px; background: #f1f5f9; border-radius: 8px; font-size: 14px; color: #64748b;">'',
        ''          <p><strong>Note:</strong> You can reply directly to this email to respond to '' @ sanitizedName @ ''.</p>'',
        ''        </div>'',
        ''      </div>'',
        ''    </body>'',
        ''    </html>'',
        ''  ''])\<close>

definition renderText :: "SendPayload \<Rightarrow> string" where
  \<comment> \<open>the source also computes \<open>payload.subject || `New message from ${payload.name}`\<close>
      into a local constant that the returned text never uses\<close>
  \<open>renderText payload =
     trim (join_lines
       ['''',
        ''New Contact Form Submission'',
        '''',
        ''From: '' @ name payload @ '' ('' @ email payload @ '')'',
        if_truthy (subject payload) (\<lambda>s. ''Subject: '' @ s) '''',
        '''',
        ''Message:'',
        message payload,
        '''',
        ''---'',
        ''Note: You can reply directly to this email to respond to '' @ name payload @ ''.'',
        ''  ''])\<close>

subsection \<open>The handler\<close>

record StaffRecord =
  firstName :: string
  staff_email :: string
  \<comment> \<open>an entry of \<open>STAFF_BY_ID\<close>; its \<open>email\<close> field is named \<open>staff_email\<close> here\<close>

definition object_prototype_names :: "string list" where
  \<comment> \<open>the names of the members that every plain JavaScript object inherits from
      \<open>Object.prototype\<close>; each of them is a function or an object, so it is truthy and
      has no \<open>email\<close>\<close>
  "object_prototype_names =
     [''constructor'', ''hasOwnProperty'', ''isPrototypeOf'', ''propertyIsEnumerable'',
      ''toLocaleString'', ''toString'', ''valueOf'', ''__proto__'',
      ''__defineGetter__'', ''__defineSetter__'', ''__lookupGetter__'', ''__lookupSetter__'']"

datatype 'a property =
    Undefined       \<comment> \<open>no such property: the read gives \<open>undefined\<close>\<close>
  | Own 'a          \<comment> \<open>an own property of the object\<close>
  | Inherited       \<comment> \<open>a member inherited from \<open>Object.prototype\<close>\<close>

definition get_property :: "(string \<Rightarrow> 'a option) \<Rightarrow> string \<Rightarrow> 'a property" where
  \<comment> \<open>Modelled from the spec: \<open>STAFF_BY_ID\<close> of src/data/staff.ts, which is generated and
      not under src/, 'a language-native read-only mapping from Identifier to
      {firstName, email}': a plain object, given by its own properties. This is the read
      \<open>obj[key]\<close> on it: an own property first, then the prototype.\<close>
  "get_property obj key =
     (case obj key of
        Some v \<Rightarrow> Own v
      | None \<Rightarrow> if key \<in> set object_prototype_names then Inherited else Undefined)"

definition email_of :: "StaffRecord property \<Rightarrow> string option" where
  \<comment> \<open>\<open>staffMember.email\<close>, which is \<open>undefined\<close> on an inherited member\<close>
  "email_of staffMember = (case staffMember of Own st \<Rightarrow> Some (staff_email st) | _ \<Rightarrow> None)"

record EmailMessage =
  mail_from :: "string option"
  mail_to :: "string option"
  replyTo :: string
  mail_subject :: string
  mail_html :: string
  mail_text :: string
  \<comment> \<open>the argument of \<open>resend.emails.send\<close>: \<open>from\<close>, \<open>to\<close>, \<open>replyTo\<close>, \<open>subject\<close>,
      \<open>html\<close>, \<open>text\<close>, each but \<open>replyTo\<close> with the prefix \<open>mail_\<close> here; \<open>from\<close> is
      \<open>process.env.RESEND_FROM\<close>, which may be unset, and \<open>to\<close> is \<open>staffMember.email\<close>,
      which may be \<open>undefined\<close>\<close>

datatype send_outcome =
    Sent        \<comment> \<open>the call returns a result without \<open>error\<close>\<close>
  | SendError   \<comment> \<open>the call returns a result with \<open>error\<close>\<close>
  | SendThrew   \<comment> \<open>the call throws\<close>

record Resend =
  construct :: "string option \<Rightarrow> bool"
  emails_send :: "EmailMessage \<Rightarrow> send_outcome"
  \<comment> \<open>the email collaborator: whether \<open>new Resend(key)\<close> returns (or throws), and what
      \<open>resend.emails.send(msg)\<close> does\<close>

record Env =
  RESEND_API_KEY :: "string option"
  RESEND_FROM :: "string option"

record Response =
  status :: nat
  ok :: bool
  error :: "string option"
  \<comment> \<open>\<open>NextResponse.json({ ok, error }, { status })\<close>; the status is 200 when none is given\<close>

definition POST :: "Env \<Rightarrow> (string \<Rightarrow> StaffRecord option) \<Rightarrow> Resend \<Rightarrow> json option
    \<Rightarrow> Response \<times> EmailMessage list" where
  \<comment> \<open>The handler, given the environment, the own properties of \<open>STAFF_BY_ID\<close>, the email
      collaborator and the request body (\<open>None\<close> when \<open>request.json()\<close> throws). It returns
      the response and the messages handed to \<open>resend.emails.send\<close>. The guard
      \<open>!staffMember\<close> holds for \<open>undefined\<close> only: an entry and an inherited member are
      both truthy. A new \<open>Resend\<close> object is never falsy, so the branch
      'Email service not configured' is not reachable.\<close>
  "POST env STAFF_BY_ID resend request_json =
     (let internal = \<lparr>status = 500, ok = False, error = Some ''Internal server error''\<rparr> in
      case request_json of
        None \<Rightarrow> (internal, [])
      | Some body \<Rightarrow>
         (case sendSchema_parse body of
            Inl zod_error \<Rightarrow> (\<lparr>status = 400, ok = False, error = Some ''Invalid request data''\<rparr>, [])
          | Inr payload \<Rightarrow>
             (let staffMember = get_property STAFF_BY_ID (staffId payload) in
              if staffMember = Undefined
              then (\<lparr>status = 400, ok = False, error = Some ''Invalid staff ID''\<rparr>, [])
              else
                 if \<not> construct resend (RESEND_API_KEY env) then (internal, [])
                 else
                   (let msg = \<lparr>mail_from = RESEND_FROM env,
                               mail_to = email_of staffMember,
                               replyTo = email payload,
                               mail_subject =
                                 or_else (subject payload) (''New message from '' @ name payload),
                               mail_html = renderHtml payload,
                               mail_text = renderText payload\<rparr>
                    in case emails_send resend msg of
                         SendThrew \<Rightarrow> (internal, [msg])
                       | SendError \<Rightarrow>
                           (\<lparr>status = 500, ok = False, error = Some ''Failed to send email''\<rparr>, [msg])
                       | Sent \<Rightarrow> (\<lparr>status = 200, ok = True, error = None\<rparr>, [msg])))))"

section \<open>Definitions for the statements\<close>

definition request_body :: "string \<Rightarrow> string \<Rightarrow> string \<Rightarrow> string option \<Rightarrow> string \<Rightarrow> json" where
  \<comment> \<open>the JSON object \<open>{staffId, name, email, subject?, message}\<close> with string values, as
      the contact form posts it; \<open>None\<close> leaves the subject out\<close>
  "request_body i n e s m =
     JObj ([(''staffId'', JStr i), (''name'', JStr n), (''email'', JStr e)] @
           (case s of None \<Rightarrow> [] | Some x \<Rightarrow> [(''subject'', JStr x)]) @
           [(''message'', JStr m)])"

definition accepted :: "json \<Rightarrow> bool" where
  \<comment> \<open>\<open>sendSchema.parse(body)\<close> returns instead of throwing\<close>
  "accepted body = (case sendSchema_parse body of Inl _ \<Rightarrow> False | Inr _ \<Rightarrow> True)"

definition spec_entity :: "char \<Rightarrow> string" where
  \<comment> \<open>the replacement the specification gives for each of the five characters; every
      other character stands for itself\<close>
  \<open>spec_entity c =
     (if c = CHR ''<'' then ''&lt;''
      else if c = CHR ''>'' then ''&gt;''
      else if c = CHR ''"'' then ''&quot;''
      else if c = CHR 0x27 then ''&#x27;''
      else if c = CHR ''/'' then ''&#x2F;''
      else [c])\<close>

definition is_escaped_char :: "char \<Rightarrow> bool" where
  \<comment> \<open>one of the five characters that \<open>sanitizeHtml\<close> replaces\<close>
  \<open>is_escaped_char c = (c \<in> {CHR ''<'', CHR ''>'', CHR ''"'', CHR 0x27, CHR ''/''})\<close>

datatype tag_scan = Idle | SawLt | SawLtB | Found

fun scan_step :: "tag_scan \<Rightarrow> char \<Rightarrow> tag_scan" where
  \<comment> \<open>one step of a left-to-right search for the three characters \<open><b>\<close>\<close>
  "scan_step Found c = Found"
| "scan_step SawLtB c =
     (if c = CHR ''>'' then Found else if c = CHR ''<'' then SawLt else Idle)"
| "scan_step SawLt c =
     (if c = CHR ''b'' then SawLtB else if c = CHR ''<'' then SawLt else Idle)"
| "scan_step Idle c = (if c = CHR ''<'' then SawLt else Idle)"

definition scan :: "tag_scan \<Rightarrow> string \<Rightarrow> tag_scan" where
  "scan q s = foldl scan_step q s"

definition tag_free :: "string \<Rightarrow> bool" where
  \<comment> \<open>the search does not complete inside the string, wherever before the end it starts\<close>
  "tag_free s = (scan Idle s \<noteq> Found \<and> scan SawLt s \<noteq> Found \<and> scan SawLtB s \<noteq> Found)"

definition spec_valid :: "SendPayload \<Rightarrow> bool" where
  \<comment> \<open>the bounds as the specification lists them, each one inclusive\<close>
  "spec_valid p =
     (8 \<le> length (staffId p) \<and> length (staffId p) \<le> 128 \<and>
      1 \<le> length (name p) \<and> length (name p) \<le> 120 \<and>
      is_email (email p) \<and> length (email p) \<le> 254 \<and>
      (case subject p of None \<Rightarrow> True | Some s \<Rightarrow> length s \<le> 200) \<and>
      1 \<le> length (message p) \<and> length (message p) \<le> 5000)"

subsection \<open>Example inputs\<close>

definition example_env :: Env where
  "example_env = \<lparr>RESEND_API_KEY = Some ''re_123'', RESEND_FROM = Some ''noreply@yourdomain.com''\<rparr>"

definition example_directory :: "string \<Rightarrow> StaffRecord option" where
  \<comment> \<open>the directory of the README: Gus, under the identifier of its example links\<close>
  "example_directory =
     Map.empty(''f90c7debd89d693a'' \<mapsto> \<lparr>firstName = ''Gus'', staff_email = ''gus@yourdomain.com''\<rparr>)"

definition example_resend :: Resend where
  \<comment> \<open>a collaborator that needs a key and then delivers every message\<close>
  "example_resend =
     \<lparr>construct = (\<lambda>key. if_truthy key (\<lambda>_. True) False), emails_send = (\<lambda>_. Sent)\<rparr>"

definition bob_payload :: SendPayload where
  "bob_payload =
     \<lparr>staffId = ''f90c7debd89d693a'', name = ''<b>Bob</b>'', email = ''bob@example.com'',
      subject = None, message = ''Hi''\<rparr>"

definition ann_payload :: "string option \<Rightarrow> SendPayload" where
  "ann_payload s =
     \<lparr>staffId = ''f90c7debd89d693a'', name = ''Ann'', email = ''ann@example.com'',
      subject = s, message = ''Hi''\<rparr>"

definition body_of :: "SendPayload \<Rightarrow> json" where
  "body_of p = request_body (staffId p) (name p) (email p) (subject p) (message p)"

section \<open>Lemmas\<close>

subsection \<open>Normalization and the digest\<close>

lemma space_not_letter: "is_space c \<Longrightarrow> \<not> is_lower_az (lower_char c)"
  by (auto simp: is_space_def is_lower_az_def lower_char_def Let_def)

lemma filter_dropWhile_space:
  "(\<And>c. is_space c \<Longrightarrow> \<not> Q c) \<Longrightarrow> filter Q (dropWhile is_space s) = filter Q s"
  by (induction s) auto

lemma filter_trim:
  assumes "\<And>c. is_space c \<Longrightarrow> \<not> Q c"
  shows "filter Q (trim s) = filter Q s"
proof -
  have "filter Q (trim s) = rev (filter Q (dropWhile is_space (rev (dropWhile is_space s))))"
    by (simp add: trim_def rev_filter)
  also have "\<dots> = rev (filter Q (rev (dropWhile is_space s)))"
    using assms by (simp add: filter_dropWhile_space)
  also have "\<dots> = filter Q (dropWhile is_space s)"
    by (simp add: rev_filter)
  finally show ?thesis using assms by (simp add: filter_dropWhile_space)
qed

lemma filter_collapse_ws:
  assumes "\<And>c. is_space c \<Longrightarrow> \<not> Q c"
  shows "filter Q (collapse_ws s) = filter Q s"
proof (induction s rule: collapse_ws.induct)
  case 1
  show ?case by simp
next
  case (2 c cs)
  have sp: "\<not> Q CHR '' ''" using assms [of "CHR '' ''"] by (simp add: is_space_def)
  show ?case
  proof (cases "is_space c")
    case True
    with 2 assms sp show ?thesis by (simp add: filter_dropWhile_space)
  next
    case False
    with 2 show ?thesis by simp
  qed
qed

lemma normalizeName_letters:
  "normalizeName s = filter is_lower_az (map lower_char s)"
proof -
  let ?Q = "\<lambda>c. is_lower_az (lower_char c)"
  have Q: "\<And>c. is_space c \<Longrightarrow> \<not> ?Q c" by (rule space_not_letter)
  have "normalizeName s = map lower_char (filter ?Q (collapse_ws (trim s)))"
    by (simp add: normalizeName_def strip_non_letters_def toLowerCase_def filter_map comp_def)
  also have "\<dots> = map lower_char (filter ?Q s)"
    using filter_collapse_ws [of ?Q] filter_trim [of ?Q] Q by simp
  finally show ?thesis by (simp add: filter_map comp_def)
qed

lemma normalizeName_Jo_Doe: "normalizeName ''Jo Doe'' = ''jodoe''"
  by code_simp
lemma normalizeName_jo_doe: "normalizeName ''jo doe'' = ''jodoe''"
  by code_simp
lemma normalizeName_JO_DOE: "normalizeName '' JO   DOE '' = ''jodoe''"
  by code_simp
lemma normalizeName_Jo1_Doe: "normalizeName ''Jo1 Doe!'' = ''jodoe''"
  by code_simp
lemma length_bytes_of_state: "length (bytes_of_state st) = 32"
  by (cases st rule: bytes_of_state.cases) simp

lemma length_sha256: "length (sha256 m) = 32"
  by (simp add: sha256_def length_bytes_of_state)

lemma length_hmac_sha256: "length (hmac_sha256 k m) = 32"
  by (simp add: hmac_sha256_def Let_def length_sha256)

lemma length_hex: "length (hex bs) = 2 * length bs"
  by (induction bs) (simp_all add: hex_def)

lemma hex_digit_lower_hex: "is_lower_hex (hex_digit n)"
proof -
  have "n mod 16 < length ''0123456789abcdef''" by simp
  then show ?thesis unfolding is_lower_hex_def hex_digit_def by (rule nth_mem)
qed

lemma hex_lower_hex: "list_all is_lower_hex (hex bs)"
  by (induction bs) (simp_all add: hex_def hex_digit_lower_hex)

lemma list_all_take: "list_all P xs \<Longrightarrow> list_all P (take n xs)"
  by (auto simp: list_all_iff dest: in_set_takeD)

subsection \<open>Substrings and joined lines\<close>

lemma includes_str_iff: "includes_str h n \<longleftrightarrow> (\<exists>ps ss. h = ps @ n @ ss)"
proof (induction h)
  case Nil
  show ?case by auto
next
  case (Cons c cs)
  show ?case
  proof
    assume "includes_str (c # cs) n"
    then consider "take (length n) (c # cs) = n" | "includes_str cs n" by auto
    then show "\<exists>ps ss. c # cs = ps @ n @ ss"
    proof cases
      case 1
      then have "c # cs = [] @ n @ drop (length n) (c # cs)"
        by (metis append_Nil append_take_drop_id)
      then show ?thesis by blast
    next
      case 2
      with Cons obtain ps ss where "cs = ps @ n @ ss" by blast
      then have "c # cs = (c # ps) @ n @ ss" by simp
      then show ?thesis by blast
    qed
  next
    assume "\<exists>ps ss. c # cs = ps @ n @ ss"
    then obtain ps ss where eq: "c # cs = ps @ n @ ss" by blast
    show "includes_str (c # cs) n"
    proof (cases ps)
      case Nil
      with eq have "take (length n) (c # cs) = n" by simp
      then show ?thesis by simp
    next
      case (Cons p ps')
      with eq have "cs = ps' @ n @ ss" by simp
      with Cons.IH show ?thesis by auto
    qed
  qed
qed

lemma includes_str_mid: "includes_str (a @ n @ b) n"
  unfolding includes_str_iff by blast

lemma includes_str_append: "includes_str h n \<Longrightarrow> includes_str (a @ h @ b) n"
  unfolding includes_str_iff by (metis append.assoc)

lemma join_lines_Cons: "ls \<noteq> [] \<Longrightarrow> join_lines (l # ls) = l @ CHR 0x0A # join_lines ls"
  by (simp add: join_lines_def)

lemma join_lines_single: "join_lines [l] = l"
  by (simp add: join_lines_def)

lemma includes_join_lines:
  "l \<in> set ls \<Longrightarrow> includes_str l n \<Longrightarrow> includes_str (join_lines ls) n"
proof (induction ls)
  case Nil
  then show ?case by simp
next
  case (Cons x xs)
  show ?case
  proof (cases "xs = []")
    case True
    with Cons.prems show ?thesis by (simp add: join_lines_single)
  next
    case False
    then have eq: "join_lines (x # xs) = x @ CHR 0x0A # join_lines xs" by (rule join_lines_Cons)
    show ?thesis
    proof (cases "l = x")
      case True
      with Cons.prems(2) have "includes_str ([] @ x @ (CHR 0x0A # join_lines xs)) n"
        by (intro includes_str_append) simp
      with eq show ?thesis by simp
    next
      case False
      with Cons have "includes_str (join_lines xs) n" by simp
      then have "includes_str ((x @ [CHR 0x0A]) @ join_lines xs @ []) n"
        by (rule includes_str_append)
      with eq show ?thesis by simp
    qed
  qed
qed

subsection \<open>Searching for the tag\<close>

lemma scan_append: "scan q (a @ b) = scan (scan q a) b"
  by (simp add: scan_def)

lemma scan_Found: "scan Found s = Found"
  by (induction s) (simp_all add: scan_def)

lemma scan_Nil: "scan q [] = q"
  by (simp add: scan_def)

lemma scan_Cons: "scan q (c # s) = scan (scan_step q c) s"
  by (simp add: scan_def)

lemma scan_includes:
  "(scan Idle s = Found \<longleftrightarrow> includes_str s ''<b>'') \<and>
   (scan SawLt s = Found \<longleftrightarrow> take 2 s = ''b>'' \<or> includes_str s ''<b>'') \<and>
   (scan SawLtB s = Found \<longleftrightarrow> take 1 s = ''>'' \<or> includes_str s ''<b>'')"
proof (induction s)
  case Nil
  show ?case by (simp add: scan_Nil)
next
  case (Cons c s)
  have t2: "take 2 (c # s) = ''b>'' \<longleftrightarrow> c = CHR ''b'' \<and> take 1 s = ''>''"
    by (simp add: numeral_2_eq_2)
  have t3: "take (length ''<b>'') (c # s) = ''<b>'' \<longleftrightarrow> c = CHR ''<'' \<and> take 2 s = ''b>''"
    by (simp add: numeral_2_eq_2)
  have t1: "take 1 (c # s) = ''>'' \<longleftrightarrow> c = CHR ''>''"
    by simp
  have inc: "includes_str (c # s) ''<b>'' \<longleftrightarrow>
      (c = CHR ''<'' \<and> take 2 s = ''b>'') \<or> includes_str s ''<b>''"
    using t3 by (simp only: includes_str.simps)
  consider "c = CHR ''<''" | "c = CHR ''b''" | "c = CHR ''>''"
    | "c \<noteq> CHR ''<''" "c \<noteq> CHR ''b''" "c \<noteq> CHR ''>''" by blast
  then show ?case
  proof cases
    case 1
    with Cons.IH show ?thesis unfolding scan_Cons inc t1 t2 by simp
  next
    case 2
    with Cons.IH show ?thesis unfolding scan_Cons inc t1 t2 by simp
  next
    case 3
    with Cons.IH show ?thesis unfolding scan_Cons inc t1 t2 by (simp add: scan_Found)
  next
    case 4
    with Cons.IH show ?thesis unfolding scan_Cons inc t1 t2 by simp
  qed
qed

lemma tag_free_iff: "tag_free s \<Longrightarrow> \<not> includes_str s ''<b>''"
  using scan_includes [of s] by (simp add: tag_free_def)

lemma tag_free_scan: "tag_free s \<Longrightarrow> q \<noteq> Found \<Longrightarrow> scan q s \<noteq> Found"
  by (cases q) (simp_all add: tag_free_def)

lemma tag_free_append:
  assumes "tag_free a" and "tag_free b"
  shows "tag_free (a @ b)"
proof -
  have a: "scan q a \<noteq> Found" if "q \<noteq> Found" for q
    using assms(1) that by (rule tag_free_scan)
  have b: "scan q b \<noteq> Found" if "q \<noteq> Found" for q
    using assms(2) that by (rule tag_free_scan)
  show ?thesis
    unfolding tag_free_def scan_append by (intro conjI b a) simp_all
qed

lemma scan_step_Found: "scan_step q c = Found \<longleftrightarrow> q = Found \<or> (q = SawLtB \<and> c = CHR ''>'')"
  by (cases q) auto

lemma scan_no_gt: "CHR ''>'' \<notin> set s \<Longrightarrow> q \<noteq> Found \<Longrightarrow> scan q s \<noteq> Found"
proof (induction s arbitrary: q)
  case Nil
  then show ?case by (simp add: scan_Nil)
next
  case (Cons c s)
  from Cons.prems(1) have c: "c \<noteq> CHR ''>''" and s: "CHR ''>'' \<notin> set s" by auto
  from c Cons.prems(2) have "scan_step q c \<noteq> Found" by (simp add: scan_step_Found)
  with s have "scan (scan_step q c) s \<noteq> Found" by (rule Cons.IH)
  then show ?case unfolding scan_Cons .
qed

lemma tag_free_no_gt: "CHR ''>'' \<notin> set s \<Longrightarrow> tag_free s"
  by (simp add: tag_free_def scan_no_gt)

lemma tag_free_join_lines:
  "list_all tag_free ls \<Longrightarrow> ls \<noteq> [] \<Longrightarrow> tag_free (join_lines ls)"
proof (induction ls)
  case Nil
  then show ?case by simp
next
  case (Cons x xs)
  show ?case
  proof (cases "xs = []")
    case True
    with Cons.prems show ?thesis by (simp add: join_lines_single)
  next
    case False
    have nl: "tag_free [CHR 0x0A]" by (simp add: tag_free_def scan_Cons scan_Nil)
    from False Cons have "tag_free (join_lines xs)" by simp
    with nl have "tag_free ([CHR 0x0A] @ join_lines xs)" by (rule tag_free_append)
    moreover from Cons.prems have "tag_free x" by simp
    ultimately have "tag_free (x @ [CHR 0x0A] @ join_lines xs)" by (rule tag_free_append [rotated])
    with False show ?thesis by (simp add: join_lines_Cons)
  qed
qed

subsection \<open>Escaping and the characters of an address\<close>

lemma replace_all_append: "replace_all c r (a @ b) = replace_all c r a @ replace_all c r b"
  by (simp add: replace_all_def)

lemma sanitizeHtml_append: "sanitizeHtml (a @ b) = sanitizeHtml a @ sanitizeHtml b"
  by (simp add: sanitizeHtml_def replace_all_append)

lemma sanitizeHtml_Nil: "sanitizeHtml [] = []"
  by (simp add: sanitizeHtml_def replace_all_def)

lemma sanitizeHtml_single: "sanitizeHtml [c] = spec_entity c"
  by (simp add: sanitizeHtml_def replace_all_def spec_entity_def)

lemma sanitizeHtml_Cons: "sanitizeHtml (c # cs) = spec_entity c @ sanitizeHtml cs"
  using sanitizeHtml_append [of "[c]" cs] by (simp add: sanitizeHtml_single)

lemma sanitizeHtml_entities: "sanitizeHtml s = concat (map spec_entity s)"
  by (induction s) (simp_all add: sanitizeHtml_Nil sanitizeHtml_Cons)

lemma spec_entity_clean: "x \<in> set (spec_entity c) \<Longrightarrow> \<not> is_escaped_char x"
  by (auto simp: spec_entity_def is_escaped_char_def split: if_splits)

lemma sanitizeHtml_clean: "x \<in> set (sanitizeHtml s) \<Longrightarrow> \<not> is_escaped_char x"
  by (auto simp: sanitizeHtml_entities dest: spec_entity_clean)

lemma sanitizeHtml_no_gt: "CHR ''>'' \<notin> set (sanitizeHtml s)"
  using sanitizeHtml_clean [of "CHR ''>''" s] by (auto simp: is_escaped_char_def)

lemma sanitizeHtml_eq_Nil: "sanitizeHtml s = [] \<longleftrightarrow> s = []"
  by (cases s) (auto simp: sanitizeHtml_Nil sanitizeHtml_Cons spec_entity_def)

lemma tag_free_sanitizeHtml: "tag_free (sanitizeHtml s)"
  by (rule tag_free_no_gt) (rule sanitizeHtml_no_gt)

lemma split_on_not_Nil: "split_on d s \<noteq> []"
  by (induction s) (simp_all split: list.splits)

lemma split_on_chars: "x \<in> set s \<Longrightarrow> x \<noteq> d \<Longrightarrow> \<exists>p \<in> set (split_on d s). x \<in> set p"
proof (induction s)
  case Nil
  then show ?case by simp
next
  case (Cons c cs)
  obtain y ys where sp: "split_on d cs = y # ys"
    using split_on_not_Nil [of d cs] by (cases "split_on d cs") simp_all
  show ?case
  proof (cases "c = d")
    case True
    with Cons show ?thesis by auto
  next
    case False
    show ?thesis
    proof (cases "x = c")
      case True
      with False sp show ?thesis by simp
    next
      case False
      with Cons obtain p where "p \<in> set (split_on d cs)" "x \<in> set p" by auto
      with sp \<open>c \<noteq> d\<close> show ?thesis by auto
    qed
  qed
qed


lemma valid_domain_chars:
  assumes "valid_domain d" and "x \<in> set d"
  shows "x = CHR ''.'' \<or> label_char x"
proof (cases "x = CHR ''.''")
  case True
  then show ?thesis by simp
next
  case False
  with assms(2) obtain p where p: "p \<in> set (split_on CHR ''.'' d)" and x: "x \<in> set p"
    using split_on_chars by blast
  let ?parts = "split_on CHR ''.'' d"
  have parts: "?parts = butlast ?parts @ [last ?parts]"
    using split_on_not_Nil [of "CHR ''.''" d] by simp
  from assms(1) have labels: "list_all label_ok (butlast ?parts)"
    and tld: "list_all is_alpha (last ?parts)"
    by (simp_all add: valid_domain_def Let_def)
  from p parts have "p \<in> set (butlast ?parts) \<or> p = last ?parts"
    by (metis Un_iff empty_iff empty_set insert_iff list.simps(15) set_append)
  then show ?thesis
  proof
    assume "p \<in> set (butlast ?parts)"
    with labels have "label_ok p" by (simp add: list_all_iff)
    with x have "label_char x"
      by (cases p) (auto simp: label_ok_def label_char_def list_all_iff)
    then show ?thesis ..
  next
    assume "p = last ?parts"
    with tld x have "is_alpha x" by (simp add: list_all_iff)
    then show ?thesis by (simp add: label_char_def is_alnum_def)
  qed
qed

lemma is_email_chars:
  assumes "is_email s" and "x \<in> set s"
  shows "local_char x \<or> x = CHR ''@''"
proof -
  let ?l = "takeWhile (\<lambda>c. c \<noteq> CHR ''@'') s"
  let ?r = "dropWhile (\<lambda>c. c \<noteq> CHR ''@'') s"
  from assms(1) have r: "?r \<noteq> []" and l: "list_all local_char ?l" and d: "valid_domain (tl ?r)"
    by (simp_all add: is_email_def Let_def)
  from r have hd: "hd ?r = CHR ''@''"
    using hd_dropWhile [of "\<lambda>c. c \<noteq> CHR ''@''" s] by simp
  have "s = ?l @ hd ?r # tl ?r" using r by simp
  with assms(2) have "x \<in> set ?l \<or> x = hd ?r \<or> x \<in> set (tl ?r)"
    by (metis Un_iff set_ConsD set_append)
  then show ?thesis
  proof (elim disjE)
    assume "x \<in> set ?l"
    with l show ?thesis by (simp add: list_all_iff)
  next
    assume "x = hd ?r"
    with hd show ?thesis by simp
  next
    assume "x \<in> set (tl ?r)"
    with d have "x = CHR ''.'' \<or> label_char x" by (rule valid_domain_chars)
    then show ?thesis by (auto simp: local_char_def label_char_def)
  qed
qed

lemma is_email_no_gt: "is_email s \<Longrightarrow> CHR ''>'' \<notin> set s"
proof
  assume "is_email s" and "CHR ''>'' \<in> set s"
  then have "local_char CHR ''>'' \<or> CHR ''>'' = CHR ''@''" by (rule is_email_chars)
  then show False by (simp add: local_char_def is_alnum_def is_alpha_def)
qed

subsection \<open>Validation\<close>

lemma z_string_Inr: "z_string chk v = Inr s \<longleftrightarrow> v = Some (JStr s) \<and> chk s = []"
  by (auto simp: z_string_def split: option.splits json.splits)

lemma z_optional_Inr:
  "z_optional (z_string chk) v = Inr so \<longleftrightarrow>
     (v = None \<and> so = None) \<or> (\<exists>s. v = Some (JStr s) \<and> so = Some s \<and> chk s = [])"
  by (auto simp: z_optional_def z_string_def split: option.splits sum.splits json.splits if_splits)

lemma chk_min_Nil: "chk_min n s = [] \<longleftrightarrow> n \<le> length s"
  by (simp add: chk_min_def)

lemma chk_max_Nil: "chk_max n s = [] \<longleftrightarrow> length s \<le> n"
  by (simp add: chk_max_def)

lemma chk_email_Nil: "chk_email s = [] \<longleftrightarrow> is_email s"
  by (simp add: chk_email_def)

lemma parse_fields:
  "sendSchema_parse (JObj props) = Inr p \<longleftrightarrow>
     z_string (\<lambda>s. chk_min 8 s @ chk_max 128 s) (map_of props ''staffId'') = Inr (staffId p) \<and>
     z_string (\<lambda>s. chk_min 1 s @ chk_max 120 s) (map_of props ''name'') = Inr (name p) \<and>
     z_string (\<lambda>s. chk_email s @ chk_max 254 s) (map_of props ''email'') = Inr (email p) \<and>
     z_optional (z_string (\<lambda>s. chk_max 200 s)) (map_of props ''subject'') = Inr (subject p) \<and>
     z_string (\<lambda>s. chk_min 1 s @ chk_max 5000 s) (map_of props ''message'') = Inr (message p)"
  unfolding sendSchema_parse_def Let_def
  by (cases p) (auto split: sum.splits)

lemma parse_not_object: "(\<And>props. body \<noteq> JObj props) \<Longrightarrow> sendSchema_parse body = Inl [([], invalid_type)]"
  by (cases body) (auto simp: sendSchema_parse_def)

lemma parse_Inr_iff:
  "sendSchema_parse body = Inr p \<longleftrightarrow>
     (\<exists>props. body = JObj props \<and>
        map_of props ''staffId'' = Some (JStr (staffId p)) \<and>
        map_of props ''name'' = Some (JStr (name p)) \<and>
        map_of props ''email'' = Some (JStr (email p)) \<and>
        map_of props ''subject'' = map_option JStr (subject p) \<and>
        map_of props ''message'' = Some (JStr (message p))) \<and>
     spec_valid p"
proof (cases body)
  case (JObj props)
  show ?thesis
    unfolding JObj parse_fields z_string_Inr z_optional_Inr spec_valid_def
    by (auto simp: chk_min_Nil chk_max_Nil chk_email_Nil split: option.splits)
qed (simp_all add: sendSchema_parse_def)

lemma renderText_eq:
  "renderText p =
     join_lines
       [''New Contact Form Submission'',
        '''',
        ''From: '' @ name p @ '' ('' @ email p @ '')'',
        if_truthy (subject p) (\<lambda>s. ''Subject: '' @ s) '''',
        '''',
        ''Message:'',
        message p,
        '''',
        ''---'',
        ''Note: You can reply directly to this email to respond to '' @ name p @ ''.'']"
  by (simp add: renderText_def join_lines_def trim_def is_space_def)

subsection \<open>The handler on accepted and rejected bodies\<close>

lemma parse_request_body:
  "sendSchema_parse (request_body i n e s m) = Inr p \<longleftrightarrow>
     p = \<lparr>staffId = i, name = n, email = e, subject = s, message = m\<rparr> \<and> spec_valid p"
  unfolding parse_Inr_iff request_body_def
  by (cases s; cases p; cases "subject p") auto

lemma accepted_iff: "accepted body \<longleftrightarrow> (\<exists>p. sendSchema_parse body = Inr p)"
  by (cases "sendSchema_parse body") (simp_all add: accepted_def)

lemma accepted_request_body:
  "accepted (request_body i n e s m) \<longleftrightarrow>
     spec_valid \<lparr>staffId = i, name = n, email = e, subject = s, message = m\<rparr>"
  by (auto simp: accepted_iff parse_request_body)

lemma parse_body_of_iff: "sendSchema_parse (body_of p) = Inr q \<longleftrightarrow> q = p \<and> spec_valid p"
  by (cases p) (auto simp: body_of_def parse_request_body)

lemma parse_body_of: "spec_valid p \<Longrightarrow> sendSchema_parse (body_of p) = Inr p"
  by (simp add: body_of_def parse_request_body)

lemma is_email_bob: "is_email ''bob@example.com''"
  by code_simp

lemma is_email_ann: "is_email ''ann@example.com''"
  by code_simp

lemma not_an_email: "\<not> is_email ''not-an-email''"
  by code_simp

lemma spec_valid_bob: "spec_valid bob_payload"
  by (simp add: spec_valid_def bob_payload_def is_email_bob)

lemma spec_valid_ann: "length s \<le> 200 \<Longrightarrow> spec_valid (ann_payload (Some s))" "spec_valid (ann_payload None)"
  by (simp_all add: spec_valid_def ann_payload_def is_email_ann)

lemma POST_rejects:
  "sendSchema_parse body = Inl issues \<Longrightarrow>
   POST env dir resend (Some body) =
     (\<lparr>status = 400, ok = False, error = Some ''Invalid request data''\<rparr>, [])"
  by (simp add: POST_def)

lemma get_property_Own: "obj key = Some v \<Longrightarrow> get_property obj key = Own v"
  by (simp add: get_property_def)

lemma get_property_Undefined:
  "obj key = None \<Longrightarrow> key \<notin> set object_prototype_names \<Longrightarrow> get_property obj key = Undefined"
  by (simp add: get_property_def)

lemma get_property_Inherited:
  "obj key = None \<Longrightarrow> key \<in> set object_prototype_names \<Longrightarrow> get_property obj key = Inherited"
  by (simp add: get_property_def)

lemma POST_unknown:
  "sendSchema_parse body = Inr p \<Longrightarrow> dir (staffId p) = None \<Longrightarrow>
   staffId p \<notin> set object_prototype_names \<Longrightarrow>
   POST env dir resend (Some body) =
     (\<lparr>status = 400, ok = False, error = Some ''Invalid staff ID''\<rparr>, [])"
  by (simp add: POST_def get_property_Undefined)

lemma POST_sends:
  "sendSchema_parse body = Inr p \<Longrightarrow> dir (staffId p) = Some st \<Longrightarrow>
   construct resend (RESEND_API_KEY env) \<Longrightarrow>
   snd (POST env dir resend (Some body)) =
     [\<lparr>mail_from = RESEND_FROM env, mail_to = Some (staff_email st), replyTo = email p,
       mail_subject = or_else (subject p) (''New message from '' @ name p),
       mail_html = renderHtml p, mail_text = renderText p\<rparr>]"
  by (simp add: POST_def Let_def get_property_Own email_of_def split: send_outcome.splits)

lemma POST_inherited:
  "sendSchema_parse body = Inr p \<Longrightarrow> dir (staffId p) = None \<Longrightarrow>
   staffId p \<in> set object_prototype_names \<Longrightarrow>
   construct resend (RESEND_API_KEY env) \<Longrightarrow>
   snd (POST env dir resend (Some body)) =
     [\<lparr>mail_from = RESEND_FROM env, mail_to = None, replyTo = email p,
       mail_subject = or_else (subject p) (''New message from '' @ name p),
       mail_html = renderHtml p, mail_text = renderText p\<rparr>]"
  by (simp add: POST_def Let_def get_property_Inherited email_of_def split: send_outcome.splits)

lemma tag_free_if_truthy:
  "(\<And>s. tag_free (f s)) \<Longrightarrow> tag_free d \<Longrightarrow> tag_free (if_truthy v f d)"
  by (simp add: if_truthy_def split: option.splits)

lemma tag_free_renderHtml:
  assumes "CHR ''>'' \<notin> set (email p)"
  shows "tag_free (renderHtml p)"
proof -
  have e: "tag_free (email p)" using assms by (rule tag_free_no_gt)
  show ?thesis
    unfolding renderHtml_def Let_def
    apply (rule tag_free_join_lines)
     apply (simp only: list.pred_inject simp_thms)
     apply (intro conjI tag_free_append tag_free_if_truthy tag_free_sanitizeHtml e)
                        apply (simp_all add: tag_free_def scan_def)
    done
qed

subsection \<open>What the bodies contain\<close>

lemma includes_str_self: "includes_str s s"
  using includes_str_mid [of "[]" s "[]"] by simp

lemma includes_str_Nil: "includes_str s []"
  by (cases s) simp_all

lemma includes_renderHtml_name: "includes_str (renderHtml p) (sanitizeHtml (name p))"
proof -
  have l: \<open>includes_str (''          <p><strong>From:</strong> '' @
      sanitizeHtml (name p) @ '' ('' @ email p @ '')</p>'') (sanitizeHtml (name p))\<close>
    by (rule includes_str_mid)
  show ?thesis
    unfolding renderHtml_def Let_def
    by (rule includes_join_lines [OF _ l]) simp
qed

lemma includes_renderHtml_message: "includes_str (renderHtml p) (sanitizeHtml (message p))"
proof -
  have l: \<open>includes_str (''          <p style="white-space: pre-wrap;">'' @
      sanitizeHtml (message p) @ ''</p>'') (sanitizeHtml (message p))\<close>
    by (rule includes_str_mid)
  show ?thesis
    unfolding renderHtml_def Let_def
    by (rule includes_join_lines [OF _ l]) simp
qed

lemma includes_renderHtml_title:
  "includes_str (renderHtml p)
     (''<title>'' @ if_truthy (subject p) sanitizeHtml (''New message from '' @ sanitizeHtml (name p))
        @ ''</title>'')"
proof -
  let ?t = "if_truthy (subject p) sanitizeHtml (''New message from '' @ sanitizeHtml (name p))"
  have "includes_str (''      '' @ (''<title>'' @ ?t @ ''</title>'') @ []) (''<title>'' @ ?t @ ''</title>'')"
    by (rule includes_str_mid)
  then have l: "includes_str (''      <title>'' @ ?t @ ''</title>'') (''<title>'' @ ?t @ ''</title>'')"
    by simp
  show ?thesis
    unfolding renderHtml_def Let_def
    by (rule includes_join_lines [OF _ l]) simp
qed

lemma includes_renderHtml_subject:
  assumes "subject p = Some s" and "s \<noteq> []"
  shows "includes_str (renderHtml p) (''<p><strong>Subject:</strong> '' @ sanitizeHtml s @ ''</p>'')"
proof -
  let ?n = "''<p><strong>Subject:</strong> '' @ sanitizeHtml s @ ''</p>''"
  have "includes_str (''          '' @ ?n @ []) ?n"
    by (rule includes_str_mid)
  then have l: "includes_str (''          '' @ ?n) ?n"
    by simp
  show ?thesis
    unfolding renderHtml_def Let_def
    by (rule includes_join_lines [OF _ l]) (simp add: assms if_truthy_def)
qed

lemma includes_renderText_name: "includes_str (renderText p) (name p)"
proof -
  have l: "includes_str (''From: '' @ name p @ '' ('' @ email p @ '')'') (name p)"
    by (rule includes_str_mid)
  show ?thesis
    unfolding renderText_eq
    by (rule includes_join_lines [OF _ l]) simp
qed

lemma includes_renderText_message: "includes_str (renderText p) (message p)"
  unfolding renderText_eq
  by (rule includes_join_lines [OF _ includes_str_self]) simp

lemma includes_renderText_subject:
  assumes "subject p = Some s" and "s \<noteq> []"
  shows "includes_str (renderText p) (''Subject: '' @ s)"
  unfolding renderText_eq
  by (rule includes_join_lines [OF _ includes_str_self]) (simp add: assms if_truthy_def)

lemma renderText_no_subject:
  assumes "subject p = None \<or> subject p = Some []"
  shows "renderText p =
     join_lines
       [''New Contact Form Submission'',
        '''',
        ''From: '' @ name p @ '' ('' @ email p @ '')'',
        '''',
        '''',
        ''Message:'',
        message p,
        '''',
        ''---'',
        ''Note: You can reply directly to this email to respond to '' @ name p @ ''.'']"
  using assms by (auto simp: renderText_eq if_truthy_def)

lemma if_truthy_sanitizeHtml:
  "if_truthy v sanitizeHtml d =
     (case map_option sanitizeHtml v of None \<Rightarrow> d | Some s \<Rightarrow> if s = [] then d else s)"
  by (simp add: if_truthy_def sanitizeHtml_eq_Nil split: option.splits)

lemma if_truthy_const:
  "if_truthy v (\<lambda>_. x) d =
     (case map_option sanitizeHtml v of None \<Rightarrow> d | Some s \<Rightarrow> if s = [] then d else x)"
  by (simp add: if_truthy_def sanitizeHtml_eq_Nil split: option.splits)

lemma renderHtml_cong:
  assumes "sanitizeHtml (name p) = sanitizeHtml (name q)"
    and "sanitizeHtml (message p) = sanitizeHtml (message q)"
    and "map_option sanitizeHtml (subject p) = map_option sanitizeHtml (subject q)"
    and "email p = email q"
  shows "renderHtml p = renderHtml q"
  unfolding renderHtml_def Let_def if_truthy_sanitizeHtml if_truthy_const assms ..

lemma sanitizeHtml_bob: "sanitizeHtml ''<b>Bob</b>'' = ''&lt;b&gt;Bob&lt;&#x2F;b&gt;''"
  by (simp add: sanitizeHtml_entities spec_entity_def)

lemma construct_example: "construct example_resend (RESEND_API_KEY example_env)"
  by (simp add: example_resend_def example_env_def if_truthy_def)

lemma directory_Gus:
  "example_directory ''f90c7debd89d693a'' = Some \<lparr>firstName = ''Gus'', staff_email = ''gus@yourdomain.com''\<rparr>"
  by (simp add: example_directory_def)

section \<open>Properties of the specification\<close>

text \<open>
  C1, as amended. For every accepted submission whose name is \<open><b>Bob</b>\<close>, the HTML body
  contains \<open>&lt;b&gt;Bob&lt;&#x2F;b&gt;\<close> (the slash is escaped too) and nowhere the three
  characters \<open><b>\<close>, and the text body contains the name as it was sent.
\<close>

theorem C1_bob_rendering:
  assumes "sendSchema_parse body = Inr p" and "name p = ''<b>Bob</b>''"
  shows "includes_str (renderHtml p) ''&lt;b&gt;Bob&lt;&#x2F;b&gt;'' \<and>
         \<not> includes_str (renderHtml p) ''<b>'' \<and>
         includes_str (renderText p) ''<b>Bob</b>''"
proof -
  from assms(1) have "is_email (email p)"
    by (simp add: parse_Inr_iff spec_valid_def)
  then have "CHR ''>'' \<notin> set (email p)" by (rule is_email_no_gt)
  then have "tag_free (renderHtml p)" by (rule tag_free_renderHtml)
  then have "\<not> includes_str (renderHtml p) ''<b>''" by (rule tag_free_iff)
  moreover have "includes_str (renderHtml p) ''&lt;b&gt;Bob&lt;&#x2F;b&gt;''"
    using includes_renderHtml_name [of p] by (simp only: assms(2) sanitizeHtml_bob)
  moreover have "includes_str (renderText p) ''<b>Bob</b>''"
    using includes_renderText_name [of p] by (simp only: assms(2))
  ultimately show ?thesis by simp
qed

theorem C1_bob_rendering_witness:
  "sendSchema_parse (body_of bob_payload) = Inr bob_payload \<and>
   name bob_payload = ''<b>Bob</b>'' \<and>
   includes_str (renderHtml bob_payload) ''&lt;b&gt;Bob&lt;&#x2F;b&gt;'' \<and>
   \<not> includes_str (renderHtml bob_payload) ''<b>'' \<and>
   includes_str (renderText bob_payload) ''<b>Bob</b>''"
proof -
  have p: "sendSchema_parse (body_of bob_payload) = Inr bob_payload"
    by (rule parse_body_of [OF spec_valid_bob])
  have n: "name bob_payload = ''<b>Bob</b>''" by (simp add: bob_payload_def)
  from p n C1_bob_rendering [OF p n] show ?thesis by simp
qed

lemma renderHtml_bob_title:
  "includes_str (renderHtml bob_payload) ''&lt;b&gt;Bob&lt;/b&gt;'' = False"
  unfolding renderHtml_def Let_def join_lines_def bob_payload_def
  by (simp add: sanitizeHtml_entities spec_entity_def if_truthy_def)

theorem C1_counterexample:
  "sendSchema_parse (body_of bob_payload) = Inr bob_payload \<and>
   name bob_payload = ''<b>Bob</b>'' \<and>
   \<not> includes_str (renderHtml bob_payload) ''&lt;b&gt;Bob&lt;/b&gt;''"
  using parse_body_of [OF spec_valid_bob] renderHtml_bob_title
  by (simp add: bob_payload_def)

text \<open>
  C2, as amended. A payload whose staffId is malformed (missing, not a string, or not 8 to
  128 characters long) gets status 400 with \<open>ok: false\<close> and the error
  \<open>Invalid request data\<close>. An accepted payload whose staffId is neither an entry of the
  directory nor the name of a member that the directory object inherits gets status 400
  with \<open>ok: false\<close> and the error \<open>Invalid staff ID\<close>. In both cases no email is sent.
\<close>

theorem C2_unknown_staff_responses:
  "((\<forall>s. map_of props ''staffId'' = Some (JStr s) \<longrightarrow> length s < 8 \<or> 128 < length s) \<longrightarrow>
      POST env dir resend (Some (JObj props)) =
        (\<lparr>status = 400, ok = False, error = Some ''Invalid request data''\<rparr>, [])) \<and>
   (sendSchema_parse body = Inr p \<and> dir (staffId p) = None \<and>
    staffId p \<notin> set object_prototype_names \<longrightarrow>
      POST env dir resend (Some body) =
        (\<lparr>status = 400, ok = False, error = Some ''Invalid staff ID''\<rparr>, []))"
proof (intro conjI impI)
  assume bad: "\<forall>s. map_of props ''staffId'' = Some (JStr s) \<longrightarrow> length s < 8 \<or> 128 < length s"
  have "sendSchema_parse (JObj props) \<noteq> Inr q" for q
  proof
    assume "sendSchema_parse (JObj props) = Inr q"
    then have "map_of props ''staffId'' = Some (JStr (staffId q))"
      and "8 \<le> length (staffId q)" and "length (staffId q) \<le> 128"
      by (simp_all add: parse_Inr_iff spec_valid_def)
    with bad show False by fastforce
  qed
  then obtain issues where "sendSchema_parse (JObj props) = Inl issues"
    by (cases "sendSchema_parse (JObj props)") auto
  then show "POST env dir resend (Some (JObj props)) =
      (\<lparr>status = 400, ok = False, error = Some ''Invalid request data''\<rparr>, [])"
    by (rule POST_rejects)
next
  assume "sendSchema_parse body = Inr p \<and> dir (staffId p) = None \<and>
      staffId p \<notin> set object_prototype_names"
  then show "POST env dir resend (Some body) =
      (\<lparr>status = 400, ok = False, error = Some ''Invalid staff ID''\<rparr>, [])"
    by (simp add: POST_unknown)
qed

lemma spec_valid_absent:
  "spec_valid (ann_payload None\<lparr>staffId := ''0000000000000000''\<rparr>)"
  by (simp add: spec_valid_def ann_payload_def is_email_ann)

theorem C2_unknown_staff_responses_witness:
  "POST example_env example_directory example_resend
     (Some (JObj [(''staffId'', JStr ''short''), (''name'', JStr ''Ann''),
                  (''email'', JStr ''ann@example.com''), (''message'', JStr ''Hi'')])) =
     (\<lparr>status = 400, ok = False, error = Some ''Invalid request data''\<rparr>, []) \<and>
   sendSchema_parse (body_of (ann_payload None\<lparr>staffId := ''0000000000000000''\<rparr>)) =
     Inr (ann_payload None\<lparr>staffId := ''0000000000000000''\<rparr>) \<and>
   example_directory (staffId (ann_payload None\<lparr>staffId := ''0000000000000000''\<rparr>)) = None \<and>
   staffId (ann_payload None\<lparr>staffId := ''0000000000000000''\<rparr>) \<notin> set object_prototype_names \<and>
   POST example_env example_directory example_resend
     (Some (body_of (ann_payload None\<lparr>staffId := ''0000000000000000''\<rparr>))) =
     (\<lparr>status = 400, ok = False, error = Some ''Invalid staff ID''\<rparr>, [])"
proof -
  let ?props = "[(''staffId'', JStr ''short''), (''name'', JStr ''Ann''),
                 (''email'', JStr ''ann@example.com''), (''message'', JStr ''Hi'')]"
  let ?p = "ann_payload None\<lparr>staffId := ''0000000000000000''\<rparr>"
  have bad: "\<forall>s. map_of ?props ''staffId'' = Some (JStr s) \<longrightarrow> length s < 8 \<or> 128 < length s"
    by simp
  have parse: "sendSchema_parse (body_of ?p) = Inr ?p"
    by (rule parse_body_of [OF spec_valid_absent])
  have absent: "example_directory (staffId ?p) = None"
    by (simp add: example_directory_def ann_payload_def)
  have plain: "staffId ?p \<notin> set object_prototype_names"
    by (simp add: object_prototype_names_def ann_payload_def)
  from C2_unknown_staff_responses
    [of ?props example_env example_directory example_resend "body_of ?p" ?p]
    bad parse absent plain
  show ?thesis by simp
qed

theorem C2_counterexample:
  "fst (POST example_env example_directory example_resend
     (Some (body_of (ann_payload None\<lparr>staffId := ''short''\<rparr>)))) =
     \<lparr>status = 400, ok = False, error = Some ''Invalid request data''\<rparr> \<and>
   fst (POST example_env example_directory example_resend
     (Some (body_of (ann_payload None\<lparr>staffId := ''0000000000000000''\<rparr>)))) =
     \<lparr>status = 400, ok = False, error = Some ''Invalid staff ID''\<rparr> \<and>
   fst (POST example_env example_directory example_resend
     (Some (body_of (ann_payload None\<lparr>staffId := ''short''\<rparr>)))) \<noteq>
   fst (POST example_env example_directory example_resend
     (Some (body_of (ann_payload None\<lparr>staffId := ''0000000000000000''\<rparr>))))"
proof -
  let ?bad = "ann_payload None\<lparr>staffId := ''short''\<rparr>"
  let ?p = "ann_payload None\<lparr>staffId := ''0000000000000000''\<rparr>"
  have "\<not> spec_valid ?bad" by (simp add: spec_valid_def ann_payload_def)
  then have "sendSchema_parse (body_of ?bad) \<noteq> Inr q" for q
    by (simp add: parse_body_of_iff)
  then obtain issues where "sendSchema_parse (body_of ?bad) = Inl issues"
    by (cases "sendSchema_parse (body_of ?bad)") auto
  then have 1: "POST example_env example_directory example_resend (Some (body_of ?bad)) =
      (\<lparr>status = 400, ok = False, error = Some ''Invalid request data''\<rparr>, [])"
    by (rule POST_rejects)
  have absent: "example_directory (staffId ?p) = None"
    by (simp add: example_directory_def ann_payload_def)
  have plain: "staffId ?p \<notin> set object_prototype_names"
    by (simp add: object_prototype_names_def ann_payload_def)
  have 2: "POST example_env example_directory example_resend (Some (body_of ?p)) =
      (\<lparr>status = 400, ok = False, error = Some ''Invalid staff ID''\<rparr>, [])"
    using parse_body_of [OF spec_valid_absent] absent plain by (rule POST_unknown)
  show ?thesis unfolding 1 2 by simp
qed

text \<open>
  The guard of the handler does not hold for the name of an inherited member: with the
  staffId \<open>constructor\<close>, which the schema accepts, one message without a recipient is
  handed to the email collaborator.
\<close>

lemma POST_constructor_key:
  "sendSchema_parse (body_of (ann_payload None\<lparr>staffId := ''constructor''\<rparr>)) =
     Inr (ann_payload None\<lparr>staffId := ''constructor''\<rparr>) \<and>
   example_directory ''constructor'' = None \<and>
   map mail_to (snd (POST example_env example_directory example_resend
     (Some (body_of (ann_payload None\<lparr>staffId := ''constructor''\<rparr>))))) = [None]"
proof -
  let ?p = "ann_payload None\<lparr>staffId := ''constructor''\<rparr>"
  have "spec_valid ?p"
    by (simp add: spec_valid_def ann_payload_def is_email_ann)
  then have parse: "sendSchema_parse (body_of ?p) = Inr ?p"
    by (rule parse_body_of)
  have absent: "example_directory (staffId ?p) = None"
    by (simp add: example_directory_def ann_payload_def)
  have inherited: "staffId ?p \<in> set object_prototype_names"
    by (simp add: object_prototype_names_def ann_payload_def)
  have key: "construct example_resend (RESEND_API_KEY example_env)"
    by (simp add: example_resend_def example_env_def if_truthy_def)
  show ?thesis
    unfolding POST_inherited [where dir = example_directory, OF parse absent inherited key]
    using parse absent by (simp add: ann_payload_def)
qed

text \<open>
  C3. The validator accepts a submission of strings exactly when every bound of the schema
  holds, each one inclusive: a message of 5000 characters passes and one of 5001 does not,
  an empty name is rejected, and so is the email \<open>not-an-email\<close>.
\<close>

theorem C3_validator_bounds:
  "(accepted (request_body i n e s m) \<longleftrightarrow>
      8 \<le> length i \<and> length i \<le> 128 \<and>
      1 \<le> length n \<and> length n \<le> 120 \<and>
      is_email e \<and> length e \<le> 254 \<and>
      (case s of None \<Rightarrow> True | Some x \<Rightarrow> length x \<le> 200) \<and>
      1 \<le> length m \<and> length m \<le> 5000) \<and>
   accepted (request_body ''f90c7debd89d693a'' ''Ann'' ''ann@example.com'' None (replicate 5000 CHR ''x'')) \<and>
   \<not> accepted (request_body ''f90c7debd89d693a'' ''Ann'' ''ann@example.com'' None (replicate 5001 CHR ''x'')) \<and>
   \<not> accepted (request_body i [] e s m) \<and>
   \<not> accepted (request_body i n ''not-an-email'' s m)"
  by (simp add: accepted_request_body spec_valid_def is_email_ann not_an_email)

theorem C3_validator_bounds_witness:
  "accepted (request_body (replicate 128 CHR ''a'') (replicate 120 CHR ''n'') ''ann@example.com''
     (Some (replicate 200 CHR ''s'')) (replicate 5000 CHR ''x'')) \<and>
   \<not> accepted (request_body (replicate 129 CHR ''a'') (replicate 120 CHR ''n'') ''ann@example.com''
     (Some (replicate 200 CHR ''s'')) (replicate 5000 CHR ''x'')) \<and>
   \<not> accepted (request_body (replicate 7 CHR ''a'') ''Ann'' ''ann@example.com'' None ''Hi'')"
  using C3_validator_bounds [of "replicate 128 CHR ''a''" "replicate 120 CHR ''n''"
      "''ann@example.com''" "Some (replicate 200 CHR ''s'')" "replicate 5000 CHR ''x''"]
    C3_validator_bounds [of "replicate 129 CHR ''a''" "replicate 120 CHR ''n''"
      "''ann@example.com''" "Some (replicate 200 CHR ''s'')" "replicate 5000 CHR ''x''"]
    C3_validator_bounds [of "replicate 7 CHR ''a''" "''Ann''" "''ann@example.com''" None "''Hi''"]
  by (simp add: is_email_ann)

text \<open>
  C4. \<open>sanitizeHtml\<close> replaces every \<open><\<close>, \<open>>\<close>, \<open>"\<close>, \<open>'\<close> and \<open>/\<close> by its entity and
  leaves none of them behind. The HTML body embeds the name, the message and a non-empty
  subject in that form, and depends on them through that form only; the text body embeds
  the same strings as they were sent.
\<close>

theorem C4_escaping:
  "sanitizeHtml t = concat (map spec_entity t) \<and>
   list_all (\<lambda>c. \<not> is_escaped_char c) (sanitizeHtml t) \<and>
   includes_str (renderHtml p) (sanitizeHtml (name p)) \<and>
   includes_str (renderHtml p) (sanitizeHtml (message p)) \<and>
   (subject p = Some s \<and> s \<noteq> [] \<longrightarrow>
      includes_str (renderHtml p) (''<p><strong>Subject:</strong> '' @ sanitizeHtml s @ ''</p>'')) \<and>
   (sanitizeHtml (name p) = sanitizeHtml (name q) \<and>
    sanitizeHtml (message p) = sanitizeHtml (message q) \<and>
    map_option sanitizeHtml (subject p) = map_option sanitizeHtml (subject q) \<and>
    email p = email q \<longrightarrow> renderHtml p = renderHtml q) \<and>
   includes_str (renderText p) (name p) \<and>
   includes_str (renderText p) (message p) \<and>
   (subject p = Some s \<and> s \<noteq> [] \<longrightarrow> includes_str (renderText p) (''Subject: '' @ s))"
proof (intro conjI impI)
  show "sanitizeHtml t = concat (map spec_entity t)"
    by (rule sanitizeHtml_entities)
  show "list_all (\<lambda>c. \<not> is_escaped_char c) (sanitizeHtml t)"
    by (simp add: list_all_iff sanitizeHtml_clean)
  show "includes_str (renderHtml p) (sanitizeHtml (name p))"
    by (rule includes_renderHtml_name)
  show "includes_str (renderHtml p) (sanitizeHtml (message p))"
    by (rule includes_renderHtml_message)
  show "includes_str (renderHtml p) (''<p><strong>Subject:</strong> '' @ sanitizeHtml s @ ''</p>'')"
    if "subject p = Some s \<and> s \<noteq> []"
    using that by (intro includes_renderHtml_subject) simp_all
  show "renderHtml p = renderHtml q"
    if "sanitizeHtml (name p) = sanitizeHtml (name q) \<and>
        sanitizeHtml (message p) = sanitizeHtml (message q) \<and>
        map_option sanitizeHtml (subject p) = map_option sanitizeHtml (subject q) \<and>
        email p = email q"
    using that by (intro renderHtml_cong) simp_all
  show "includes_str (renderText p) (name p)"
    by (rule includes_renderText_name)
  show "includes_str (renderText p) (message p)"
    by (rule includes_renderText_message)
  show "includes_str (renderText p) (''Subject: '' @ s)"
    if "subject p = Some s \<and> s \<noteq> []"
    using that by (intro includes_renderText_subject) simp_all
qed

theorem C4_escaping_witness:
  "subject (ann_payload (Some ''a/b'')\<lparr>name := ''<''\<rparr>) = Some ''a/b'' \<and> ''a/b'' \<noteq> [] \<and>
   sanitizeHtml (name (ann_payload (Some ''a/b'')\<lparr>name := ''<''\<rparr>)) =
     sanitizeHtml (name (ann_payload (Some ''a/b'')\<lparr>name := ''&lt;''\<rparr>)) \<and>
   name (ann_payload (Some ''a/b'')\<lparr>name := ''<''\<rparr>) \<noteq>
     name (ann_payload (Some ''a/b'')\<lparr>name := ''&lt;''\<rparr>) \<and>
   sanitizeHtml ''</>'' = concat (map spec_entity ''</>'') \<and>
   includes_str (renderHtml (ann_payload (Some ''a/b'')\<lparr>name := ''<''\<rparr>))
     (''<p><strong>Subject:</strong> '' @ sanitizeHtml ''a/b'' @ ''</p>'') \<and>
   includes_str (renderText (ann_payload (Some ''a/b'')\<lparr>name := ''<''\<rparr>)) (''Subject: '' @ ''a/b'') \<and>
   renderHtml (ann_payload (Some ''a/b'')\<lparr>name := ''<''\<rparr>) =
     renderHtml (ann_payload (Some ''a/b'')\<lparr>name := ''&lt;''\<rparr>)"
proof -
  let ?p = "ann_payload (Some ''a/b'')\<lparr>name := ''<''\<rparr>"
  let ?q = "ann_payload (Some ''a/b'')\<lparr>name := ''&lt;''\<rparr>"
  have s: "subject ?p = Some ''a/b'' \<and> ''a/b'' \<noteq> []"
    by (simp add: ann_payload_def)
  have n: "sanitizeHtml (name ?p) = sanitizeHtml (name ?q)"
    by (simp add: ann_payload_def sanitizeHtml_entities spec_entity_def)
  have d: "name ?p \<noteq> name ?q"
    by (simp add: ann_payload_def)
  have r: "sanitizeHtml (message ?p) = sanitizeHtml (message ?q) \<and>
      map_option sanitizeHtml (subject ?p) = map_option sanitizeHtml (subject ?q) \<and>
      email ?p = email ?q"
    by (simp add: ann_payload_def)
  from C4_escaping [of "''</>''" ?p "''a/b''" ?q] s n d r
  show ?thesis by blast
qed

text \<open>
  C5, as amended. For an accepted submission to a known staff member, one message is handed
  to the email collaborator. With a non-empty subject, that subject is the subject line, and
  it stands escaped in the title and the subject paragraph of the HTML body and unescaped in
  the subject line of the text body. With no subject, or the empty one, the subject line is
  \<open>New message from\<close> and the unescaped name, the title of the HTML body is the same with
  the escaped name, and the text body has no subject line.
\<close>

theorem C5_subject_line:
  assumes "sendSchema_parse body = Inr p"
    and "dir (staffId p) = Some st"
    and "construct resend (RESEND_API_KEY env)"
  shows "\<exists>msg. snd (POST env dir resend (Some body)) = [msg] \<and>
     (subject p = Some s \<and> s \<noteq> [] \<longrightarrow>
        mail_subject msg = s \<and>
        includes_str (mail_html msg) (''<title>'' @ sanitizeHtml s @ ''</title>'') \<and>
        includes_str (mail_html msg) (''<p><strong>Subject:</strong> '' @ sanitizeHtml s @ ''</p>'') \<and>
        includes_str (mail_text msg) (''Subject: '' @ s)) \<and>
     (subject p = None \<or> subject p = Some [] \<longrightarrow>
        mail_subject msg = ''New message from '' @ name p \<and>
        includes_str (mail_html msg)
          (''<title>New message from '' @ sanitizeHtml (name p) @ ''</title>'') \<and>
        mail_text msg =
          join_lines
            [''New Contact Form Submission'',
             '''',
             ''From: '' @ name p @ '' ('' @ email p @ '')'',
             '''',
             '''',
             ''Message:'',
             message p,
             '''',
             ''---'',
             ''Note: You can reply directly to this email to respond to '' @ name p @ ''.''])"
proof -
  let ?msg = "\<lparr>mail_from = RESEND_FROM env, mail_to = Some (staff_email st), replyTo = email p,
       mail_subject = or_else (subject p) (''New message from '' @ name p),
       mail_html = renderHtml p, mail_text = renderText p\<rparr>"
  have sent: "snd (POST env dir resend (Some body)) = [?msg]"
    using assms by (rule POST_sends)
  have given: "mail_subject ?msg = s \<and>
      includes_str (mail_html ?msg) (''<title>'' @ sanitizeHtml s @ ''</title>'') \<and>
      includes_str (mail_html ?msg) (''<p><strong>Subject:</strong> '' @ sanitizeHtml s @ ''</p>'') \<and>
      includes_str (mail_text ?msg) (''Subject: '' @ s)"
    if "subject p = Some s \<and> s \<noteq> []"
    using that includes_renderHtml_title [of p] includes_renderHtml_subject [of p s]
      includes_renderText_subject [of p s]
    by (simp add: or_else_def if_truthy_def)
  have synthesized: "mail_subject ?msg = ''New message from '' @ name p \<and>
      includes_str (mail_html ?msg)
        (''<title>New message from '' @ sanitizeHtml (name p) @ ''</title>'') \<and>
      mail_text ?msg =
        join_lines
          [''New Contact Form Submission'',
           '''',
           ''From: '' @ name p @ '' ('' @ email p @ '')'',
           '''',
           '''',
           ''Message:'',
           message p,
           '''',
           ''---'',
           ''Note: You can reply directly to this email to respond to '' @ name p @ ''.'']"
    if "subject p = None \<or> subject p = Some []"
    using that includes_renderHtml_title [of p] renderText_no_subject [of p]
    by (auto simp: or_else_def if_truthy_def)
  from sent given synthesized show ?thesis by blast
qed

theorem C5_subject_line_witness:
  "sendSchema_parse (body_of (ann_payload (Some ''Hello''))) = Inr (ann_payload (Some ''Hello'')) \<and>
   sendSchema_parse (body_of (ann_payload None)) = Inr (ann_payload None) \<and>
   example_directory (staffId (ann_payload (Some ''Hello''))) =
     Some \<lparr>firstName = ''Gus'', staff_email = ''gus@yourdomain.com''\<rparr> \<and>
   example_directory (staffId (ann_payload None)) =
     Some \<lparr>firstName = ''Gus'', staff_email = ''gus@yourdomain.com''\<rparr> \<and>
   construct example_resend (RESEND_API_KEY example_env) \<and>
   (\<exists>msg. snd (POST example_env example_directory example_resend
        (Some (body_of (ann_payload (Some ''Hello''))))) = [msg] \<and>
      mail_subject msg = ''Hello'' \<and>
      includes_str (mail_text msg) ''Subject: Hello'') \<and>
   (\<exists>msg. snd (POST example_env example_directory example_resend
        (Some (body_of (ann_payload None)))) = [msg] \<and>
      mail_subject msg = ''New message from Ann'')"
proof -
  let ?st = "\<lparr>firstName = ''Gus'', staff_email = ''gus@yourdomain.com''\<rparr>"
  have p1: "sendSchema_parse (body_of (ann_payload (Some ''Hello''))) = Inr (ann_payload (Some ''Hello''))"
    by (rule parse_body_of) (simp add: spec_valid_ann)
  have p2: "sendSchema_parse (body_of (ann_payload None)) = Inr (ann_payload None)"
    by (rule parse_body_of) (simp add: spec_valid_ann)
  have d1: "example_directory (staffId (ann_payload (Some ''Hello''))) = Some ?st"
    by (simp add: ann_payload_def directory_Gus)
  have d2: "example_directory (staffId (ann_payload None)) = Some ?st"
    by (simp add: ann_payload_def directory_Gus)
  have s1: "subject (ann_payload (Some ''Hello'')) = Some ''Hello'' \<and> ''Hello'' \<noteq> []"
    by (simp add: ann_payload_def)
  have s2: "subject (ann_payload None) = None \<or> subject (ann_payload None) = Some []"
    by (simp add: ann_payload_def)
  have n: "name (ann_payload None) = ''Ann''"
    by (simp add: ann_payload_def)
  from C5_subject_line [where dir = example_directory and s = "''Hello''", OF p1 d1 construct_example] s1
  have "\<exists>msg. snd (POST example_env example_directory example_resend
        (Some (body_of (ann_payload (Some ''Hello''))))) = [msg] \<and>
      mail_subject msg = ''Hello'' \<and>
      includes_str (mail_text msg) ''Subject: Hello''"
    by auto
  moreover from C5_subject_line [where dir = example_directory and s = "[]", OF p2 d2 construct_example] s2 n
  have "\<exists>msg. snd (POST example_env example_directory example_resend
        (Some (body_of (ann_payload None)))) = [msg] \<and>
      mail_subject msg = ''New message from Ann''"
    by auto
  ultimately show ?thesis
    using p1 p2 d1 d2 construct_example by blast
qed

lemma renderText_ann:
  "renderText (ann_payload s) =
     join_lines
       [''New Contact Form Submission'',
        '''',
        ''From: Ann (ann@example.com)'',
        if_truthy s (\<lambda>s. ''Subject: '' @ s) '''',
        '''',
        ''Message:'',
        ''Hi'',
        '''',
        ''---'',
        ''Note: You can reply directly to this email to respond to Ann.'']"
  by (simp add: renderText_eq ann_payload_def)

lemma renderText_ann_absent:
  "\<not> includes_str (renderText (ann_payload None)) ''New message from''"
  by (simp add: renderText_ann join_lines_def if_truthy_def)

lemma renderText_ann_empty:
  "\<not> includes_str (renderText (ann_payload (Some []))) ''New message from''"
  by (simp add: renderText_ann join_lines_def if_truthy_def)

theorem C5_counterexample:
  "length (snd (POST example_env example_directory example_resend
      (Some (body_of (ann_payload None))))) = 1 \<and>
   mail_subject (hd (snd (POST example_env example_directory example_resend
      (Some (body_of (ann_payload None)))))) = ''New message from Ann'' \<and>
   \<not> includes_str (mail_text (hd (snd (POST example_env example_directory example_resend
      (Some (body_of (ann_payload None))))))) ''New message from''"
proof -
  have p: "sendSchema_parse (body_of (ann_payload None)) = Inr (ann_payload None)"
    by (rule parse_body_of) (simp add: spec_valid_ann)
  have d: "example_directory (staffId (ann_payload None)) =
      Some \<lparr>firstName = ''Gus'', staff_email = ''gus@yourdomain.com''\<rparr>"
    by (simp add: ann_payload_def directory_Gus)
  have n: "or_else (subject (ann_payload None)) (''New message from '' @ name (ann_payload None)) =
      ''New message from Ann''"
    by (simp add: ann_payload_def or_else_def if_truthy_def)
  show ?thesis
    unfolding POST_sends [where dir = example_directory, OF p d construct_example]
    using renderText_ann_absent n by simp
qed

lemma makeHashedId_formula:
  "makeHashedId k s =
     take 16 (hex (hmac_sha256 (utf8_encode (or_else k ''default-secret''))
                               (utf8_encode (normalizeName s))))"
  by (simp add: makeHashedId_def Let_def)

lemma makeHashedId_length: "length (makeHashedId k s) = 16"
  by (simp add: makeHashedId_formula length_hex length_hmac_sha256)

lemma makeHashedId_hex: "list_all is_lower_hex (makeHashedId k s)"
  unfolding makeHashedId_formula by (rule list_all_take) (rule hex_lower_hex)

lemma makeHashedId_Gus: "makeHashedId None ''Gus'' = ''f90c7debd89d693a''"
  by code_simp

text \<open>
  C6. Identifier derivation is total: it normalizes the name (trim, collapse whitespace,
  lowercase, keep the letters a to z), takes the HMAC-SHA256 of the result under the secret
  and returns the first 16 characters of the lowercase hexadecimal digest. The result is
  always 16 lowercase hexadecimal characters, also when the normalized name is empty, which
  is hashed as the empty message.
\<close>

theorem C6_identifier_derivation:
  "normalizeName s = strip_non_letters (toLowerCase (collapse_ws (trim s))) \<and>
   normalizeName s = filter is_lower_az (map lower_char s) \<and>
   makeHashedId k s =
     take 16 (hex (hmac_sha256 (utf8_encode (or_else k ''default-secret''))
                               (utf8_encode (normalizeName s)))) \<and>
   length (hex (hmac_sha256 (utf8_encode (or_else k ''default-secret''))
                            (utf8_encode (normalizeName s)))) = 64 \<and>
   length (makeHashedId k s) = 16 \<and>
   list_all is_lower_hex (makeHashedId k s) \<and>
   (normalizeName s = [] \<longrightarrow>
      makeHashedId k s = take 16 (hex (hmac_sha256 (utf8_encode (or_else k ''default-secret'')) [])))"
proof (intro conjI impI)
  show "normalizeName s = strip_non_letters (toLowerCase (collapse_ws (trim s)))"
    by (simp add: normalizeName_def)
  show "normalizeName s = filter is_lower_az (map lower_char s)"
    by (rule normalizeName_letters)
  show "makeHashedId k s =
     take 16 (hex (hmac_sha256 (utf8_encode (or_else k ''default-secret''))
                               (utf8_encode (normalizeName s))))"
    by (rule makeHashedId_formula)
  show "length (hex (hmac_sha256 (utf8_encode (or_else k ''default-secret''))
                            (utf8_encode (normalizeName s)))) = 64"
    by (simp add: length_hex length_hmac_sha256)
  show "length (makeHashedId k s) = 16"
    by (rule makeHashedId_length)
  show "list_all is_lower_hex (makeHashedId k s)"
    by (rule makeHashedId_hex)
  show "makeHashedId k s = take 16 (hex (hmac_sha256 (utf8_encode (or_else k ''default-secret'')) []))"
    if "normalizeName s = []"
    using that by (simp add: makeHashedId_formula utf8_encode_def)
qed

lemma normalizeName_digits: "normalizeName '' 42 !'' = []"
  by code_simp

theorem C6_identifier_derivation_witness:
  "normalizeName '' 42 !'' = [] \<and>
   makeHashedId (Some ''s3cret'') '' 42 !'' =
     take 16 (hex (hmac_sha256 (utf8_encode (or_else (Some ''s3cret'') ''default-secret'')) [])) \<and>
   length (makeHashedId (Some ''s3cret'') '' 42 !'') = 16 \<and>
   list_all is_lower_hex (makeHashedId (Some ''s3cret'') '' 42 !'')"
  using C6_identifier_derivation [of "'' 42 !''" "Some ''s3cret''"] normalizeName_digits
  by blast

text \<open>
  C7. Under any value of the secret, the identifiers of \<open>Jo Doe\<close>, \<open>jo doe\<close> and
  \<open> JO   DOE \<close> are equal, and the identifier of \<open>Jo1 Doe!\<close> equals that of \<open>Jo Doe\<close>.
\<close>

theorem C7_normalization_collapse:
  "makeHashedId k ''Jo Doe'' = makeHashedId k ''jo doe'' \<and>
   makeHashedId k ''Jo Doe'' = makeHashedId k '' JO   DOE '' \<and>
   makeHashedId k ''Jo1 Doe!'' = makeHashedId k ''Jo Doe''"
  by (simp add: makeHashedId_formula normalizeName_Jo_Doe normalizeName_jo_doe
      normalizeName_JO_DOE normalizeName_Jo1_Doe)

theorem C7_normalization_collapse_witness:
  "makeHashedId (Some ''s3cret'') ''Jo Doe'' = makeHashedId (Some ''s3cret'') ''jo doe'' \<and>
   makeHashedId (Some ''s3cret'') ''Jo Doe'' = makeHashedId (Some ''s3cret'') '' JO   DOE '' \<and>
   makeHashedId (Some ''s3cret'') ''Jo1 Doe!'' = makeHashedId (Some ''s3cret'') ''Jo Doe''"
  by (rule C7_normalization_collapse [of "Some ''s3cret''"])

text \<open>
  C8, as amended. For every body that fails validation the handler answers with status 400,
  \<open>ok: false\<close> and the fixed error \<open>Invalid request data\<close>, which carries no detail of the
  failing fields, and hands no message to the email collaborator.
\<close>

theorem C8_validation_failure:
  assumes "sendSchema_parse body = Inl issues"
  shows "POST env dir resend (Some body) =
     (\<lparr>status = 400, ok = False, error = Some ''Invalid request data''\<rparr>, [])"
  using assms by (simp add: POST_def)

lemma parse_empty_name:
  "sendSchema_parse (request_body ''f90c7debd89d693a'' [] ''ann@example.com'' None ''Hi'') =
     Inl [([''name''], too_small)]"
  by (simp add: sendSchema_parse_def request_body_def z_string_def z_optional_def
      chk_min_def chk_max_def chk_email_def issues_at_def is_email_ann)

lemma parse_bad_email:
  "sendSchema_parse (request_body ''f90c7debd89d693a'' ''Ann'' ''not-an-email'' None ''Hi'') =
     Inl [([''email''], invalid_string)]"
  by (simp add: sendSchema_parse_def request_body_def z_string_def z_optional_def
      chk_min_def chk_max_def chk_email_def issues_at_def not_an_email)

theorem C8_validation_failure_witness:
  "sendSchema_parse (request_body ''f90c7debd89d693a'' [] ''ann@example.com'' None ''Hi'') =
     Inl [([''name''], too_small)] \<and>
   POST example_env example_directory example_resend
     (Some (request_body ''f90c7debd89d693a'' [] ''ann@example.com'' None ''Hi'')) =
     (\<lparr>status = 400, ok = False, error = Some ''Invalid request data''\<rparr>, [])"
  using parse_empty_name C8_validation_failure [OF parse_empty_name] by blast

theorem C8_counterexample:
  "sendSchema_parse (request_body ''f90c7debd89d693a'' [] ''ann@example.com'' None ''Hi'') =
     Inl [([''name''], too_small)] \<and>
   sendSchema_parse (request_body ''f90c7debd89d693a'' ''Ann'' ''not-an-email'' None ''Hi'') =
     Inl [([''email''], invalid_string)] \<and>
   POST example_env example_directory example_resend
     (Some (request_body ''f90c7debd89d693a'' [] ''ann@example.com'' None ''Hi'')) =
     (\<lparr>status = 400, ok = False, error = Some ''Invalid request data''\<rparr>, []) \<and>
   POST example_env example_directory example_resend
     (Some (request_body ''f90c7debd89d693a'' ''Ann'' ''not-an-email'' None ''Hi'')) =
     (\<lparr>status = 400, ok = False, error = Some ''Invalid request data''\<rparr>, [])"
  using parse_empty_name parse_bad_email
    POST_rejects [OF parse_empty_name] POST_rejects [OF parse_bad_email]
  by blast

text \<open>
  C9. With \<open>HASH_SECRET\<close> unset or empty, identifier derivation does not fail: the key is
  \<open>default-secret\<close>, so the identifier is a function of the normalized name alone, the same
  in both cases, and anyone can compute it: for Gus it is the identifier of the README.
\<close>

theorem C9_default_secret:
  "makeHashedId None s =
     take 16 (hex (hmac_sha256 (utf8_encode ''default-secret'') (utf8_encode (normalizeName s)))) \<and>
   makeHashedId (Some []) s = makeHashedId None s \<and>
   length (makeHashedId None s) = 16 \<and>
   makeHashedId None ''Gus'' = ''f90c7debd89d693a''"
  by (simp add: makeHashedId_formula or_else_def if_truthy_def length_hex length_hmac_sha256
      makeHashedId_Gus [unfolded makeHashedId_formula or_else_def if_truthy_def, simplified])

theorem C9_default_secret_witness:
  "makeHashedId (Some []) '' GUS '' = makeHashedId None '' GUS '' \<and>
   length (makeHashedId None '' GUS '') = 16"
  using C9_default_secret [of "'' GUS ''"] by blast

lemma renderHtml_empty_subject:
  "renderHtml \<lparr>staffId = i, name = n, email = e, subject = Some [], message = m\<rparr> =
   renderHtml \<lparr>staffId = i, name = n, email = e, subject = None, message = m\<rparr>"
  by (simp add: renderHtml_def if_truthy_def)

lemma renderText_empty_subject:
  "renderText \<lparr>staffId = i, name = n, email = e, subject = Some [], message = m\<rparr> =
   renderText \<lparr>staffId = i, name = n, email = e, subject = None, message = m\<rparr>"
  by (simp add: renderText_eq if_truthy_def)

lemma spec_valid_empty_subject:
  "spec_valid \<lparr>staffId = i, name = n, email = e, subject = Some [], message = m\<rparr> \<longleftrightarrow>
   spec_valid \<lparr>staffId = i, name = n, email = e, subject = None, message = m\<rparr>"
  by (simp add: spec_valid_def)

lemma parse_request_body_valid:
  "spec_valid \<lparr>staffId = i, name = n, email = e, subject = s, message = m\<rparr> \<Longrightarrow>
   sendSchema_parse (request_body i n e s m) =
     Inr \<lparr>staffId = i, name = n, email = e, subject = s, message = m\<rparr>"
  by (simp add: parse_request_body)

lemma parse_request_body_invalid:
  assumes "\<not> spec_valid \<lparr>staffId = i, name = n, email = e, subject = s, message = m\<rparr>"
  shows "\<exists>issues. sendSchema_parse (request_body i n e s m) = Inl issues"
proof (cases "sendSchema_parse (request_body i n e s m)")
  case (Inl issues)
  then show ?thesis by blast
next
  case (Inr p)
  then have "spec_valid \<lparr>staffId = i, name = n, email = e, subject = s, message = m\<rparr>"
    by (auto simp: parse_request_body)
  with assms show ?thesis by contradiction
qed

lemma POST_accepted:
  assumes "sendSchema_parse body = Inr p"
  shows "POST env dir resend (Some body) =
     (if get_property dir (staffId p) = Undefined
      then (\<lparr>status = 400, ok = False, error = Some ''Invalid staff ID''\<rparr>, [])
      else if \<not> construct resend (RESEND_API_KEY env)
      then (\<lparr>status = 500, ok = False, error = Some ''Internal server error''\<rparr>, [])
      else
        (case emails_send resend
            \<lparr>mail_from = RESEND_FROM env, mail_to = email_of (get_property dir (staffId p)),
             replyTo = email p,
             mail_subject = or_else (subject p) (''New message from '' @ name p),
             mail_html = renderHtml p, mail_text = renderText p\<rparr> of
           SendThrew \<Rightarrow>
             (\<lparr>status = 500, ok = False, error = Some ''Internal server error''\<rparr>,
              [\<lparr>mail_from = RESEND_FROM env, mail_to = email_of (get_property dir (staffId p)),
                replyTo = email p,
                mail_subject = or_else (subject p) (''New message from '' @ name p),
                mail_html = renderHtml p, mail_text = renderText p\<rparr>])
         | SendError \<Rightarrow>
             (\<lparr>status = 500, ok = False, error = Some ''Failed to send email''\<rparr>,
              [\<lparr>mail_from = RESEND_FROM env, mail_to = email_of (get_property dir (staffId p)),
                replyTo = email p,
                mail_subject = or_else (subject p) (''New message from '' @ name p),
                mail_html = renderHtml p, mail_text = renderText p\<rparr>])
         | Sent \<Rightarrow>
             (\<lparr>status = 200, ok = True, error = None\<rparr>,
              [\<lparr>mail_from = RESEND_FROM env, mail_to = email_of (get_property dir (staffId p)),
                replyTo = email p,
                mail_subject = or_else (subject p) (''New message from '' @ name p),
                mail_html = renderHtml p, mail_text = renderText p\<rparr>])))"
  using assms by (simp add: POST_def Let_def split: send_outcome.splits)

lemma POST_empty_subject:
  "POST env dir resend (Some (request_body i n e (Some []) m)) =
   POST env dir resend (Some (request_body i n e None m))"
proof (cases "spec_valid \<lparr>staffId = i, name = n, email = e, subject = None, message = m\<rparr>")
  case True
  then have none: "sendSchema_parse (request_body i n e None m) =
      Inr \<lparr>staffId = i, name = n, email = e, subject = None, message = m\<rparr>"
    by (rule parse_request_body_valid)
  from True have "spec_valid \<lparr>staffId = i, name = n, email = e, subject = Some [], message = m\<rparr>"
    by (simp only: spec_valid_empty_subject)
  then have empty: "sendSchema_parse (request_body i n e (Some []) m) =
      Inr \<lparr>staffId = i, name = n, email = e, subject = Some [], message = m\<rparr>"
    by (rule parse_request_body_valid)
  show ?thesis
    unfolding POST_accepted [OF none] POST_accepted [OF empty]
    by (simp add: renderHtml_empty_subject renderText_empty_subject or_else_def if_truthy_def
        split: send_outcome.splits)
next
  case False
  then obtain a where none: "sendSchema_parse (request_body i n e None m) = Inl a"
    using parse_request_body_invalid by blast
  from False have "\<not> spec_valid \<lparr>staffId = i, name = n, email = e, subject = Some [], message = m\<rparr>"
    by (simp add: spec_valid_empty_subject)
  then obtain b where empty: "sendSchema_parse (request_body i n e (Some []) m) = Inl b"
    using parse_request_body_invalid by blast
  show ?thesis
    by (simp only: POST_rejects [OF none] POST_rejects [OF empty])
qed

lemma POST_synthesized_subject:
  assumes "sendSchema_parse body = Inr p"
    and "dir (staffId p) = Some st"
    and "construct resend (RESEND_API_KEY env)"
    and "subject p = None \<or> subject p = Some []"
  shows "\<exists>msg. snd (POST env dir resend (Some body)) = [msg] \<and>
     mail_subject msg = ''New message from '' @ name p \<and>
     includes_str (mail_html msg) (''<title>New message from '' @ sanitizeHtml (name p) @ ''</title>'') \<and>
     mail_text msg =
       join_lines
         [''New Contact Form Submission'',
          '''',
          ''From: '' @ name p @ '' ('' @ email p @ '')'',
          '''',
          '''',
          ''Message:'',
          message p,
          '''',
          ''---'',
          ''Note: You can reply directly to this email to respond to '' @ name p @ ''.'']"
proof -
  have sent: "snd (POST env dir resend (Some body)) =
      [\<lparr>mail_from = RESEND_FROM env, mail_to = Some (staff_email st), replyTo = email p,
        mail_subject = or_else (subject p) (''New message from '' @ name p),
        mail_html = renderHtml p, mail_text = renderText p\<rparr>]"
    using assms(1-3) by (rule POST_sends)
  have subj: "or_else (subject p) (''New message from '' @ name p) = ''New message from '' @ name p"
    using assms(4) by (auto simp: or_else_def if_truthy_def)
  have title: "includes_str (renderHtml p)
      (''<title>New message from '' @ sanitizeHtml (name p) @ ''</title>'')"
    using assms(4) includes_renderHtml_title [of p] by (auto simp: if_truthy_def)
  show ?thesis
    unfolding sent using subj title renderText_no_subject [OF assms(4)] by simp
qed

text \<open>
  C10, as amended. A subject that is present but empty is treated as an absent one:
  validation accepts it just when it accepts the submission without a subject, and the
  response and the message sent are the same. For an accepted submission to a known staff
  member the subject line is \<open>New message from\<close> and the unescaped name, the title of the
  HTML body is the same with the escaped name, and the text body has no subject line.
\<close>

theorem C10_empty_subject:
  "accepted (request_body i n e (Some []) m) = accepted (request_body i n e None m) \<and>
   POST env dir resend (Some (request_body i n e (Some []) m)) =
     POST env dir resend (Some (request_body i n e None m)) \<and>
   (accepted (request_body i n e (Some []) m) \<and> dir i = Some st \<and>
    construct resend (RESEND_API_KEY env) \<longrightarrow>
      (\<exists>msg. snd (POST env dir resend (Some (request_body i n e (Some []) m))) = [msg] \<and>
         mail_subject msg = ''New message from '' @ n \<and>
         includes_str (mail_html msg) (''<title>New message from '' @ sanitizeHtml n @ ''</title>'') \<and>
         mail_text msg =
           join_lines
             [''New Contact Form Submission'',
              '''',
              ''From: '' @ n @ '' ('' @ e @ '')'',
              '''',
              '''',
              ''Message:'',
              m,
              '''',
              ''---'',
              ''Note: You can reply directly to this email to respond to '' @ n @ ''.'']))"
proof (intro conjI impI)
  show "accepted (request_body i n e (Some []) m) = accepted (request_body i n e None m)"
    by (simp only: accepted_request_body spec_valid_empty_subject)
  show "POST env dir resend (Some (request_body i n e (Some []) m)) =
      POST env dir resend (Some (request_body i n e None m))"
    by (rule POST_empty_subject)
next
  let ?p = "\<lparr>staffId = i, name = n, email = e, subject = Some [], message = m\<rparr>"
  assume a: "accepted (request_body i n e (Some []) m) \<and> dir i = Some st \<and>
      construct resend (RESEND_API_KEY env)"
  then have "spec_valid ?p" by (simp add: accepted_request_body)
  then have parse: "sendSchema_parse (request_body i n e (Some []) m) = Inr ?p"
    by (rule parse_request_body_valid)
  from a have d: "dir (staffId ?p) = Some st" and c: "construct resend (RESEND_API_KEY env)"
    by simp_all
  have e: "subject ?p = None \<or> subject ?p = Some []" by simp
  from POST_synthesized_subject [where dir = dir, OF parse d c e]
  show "\<exists>msg. snd (POST env dir resend (Some (request_body i n e (Some []) m))) = [msg] \<and>
         mail_subject msg = ''New message from '' @ n \<and>
         includes_str (mail_html msg) (''<title>New message from '' @ sanitizeHtml n @ ''</title>'') \<and>
         mail_text msg =
           join_lines
             [''New Contact Form Submission'',
              '''',
              ''From: '' @ n @ '' ('' @ e @ '')'',
              '''',
              '''',
              ''Message:'',
              m,
              '''',
              ''---'',
              ''Note: You can reply directly to this email to respond to '' @ n @ ''.'']"
    by simp
qed

theorem C10_empty_subject_witness:
  "accepted (request_body ''f90c7debd89d693a'' ''Ann'' ''ann@example.com'' (Some []) ''Hi'') \<and>
   example_directory ''f90c7debd89d693a'' =
     Some \<lparr>firstName = ''Gus'', staff_email = ''gus@yourdomain.com''\<rparr> \<and>
   construct example_resend (RESEND_API_KEY example_env) \<and>
   POST example_env example_directory example_resend
     (Some (request_body ''f90c7debd89d693a'' ''Ann'' ''ann@example.com'' (Some []) ''Hi'')) =
   POST example_env example_directory example_resend
     (Some (request_body ''f90c7debd89d693a'' ''Ann'' ''ann@example.com'' None ''Hi'')) \<and>
   (\<exists>msg. snd (POST example_env example_directory example_resend
        (Some (request_body ''f90c7debd89d693a'' ''Ann'' ''ann@example.com'' (Some []) ''Hi''))) = [msg] \<and>
      mail_subject msg = ''New message from '' @ ''Ann'')"
proof -
  have a: "accepted (request_body ''f90c7debd89d693a'' ''Ann'' ''ann@example.com'' (Some []) ''Hi'')"
    using spec_valid_ann(1) [of "[]"] by (simp add: accepted_request_body ann_payload_def)
  from C10_empty_subject [of "''f90c7debd89d693a''" "''Ann''" "''ann@example.com''" "''Hi''"
      example_env example_directory example_resend
      "\<lparr>firstName = ''Gus'', staff_email = ''gus@yourdomain.com''\<rparr>"]
    a directory_Gus construct_example
  show ?thesis by blast
qed

theorem C10_counterexample:
  "accepted (body_of (ann_payload (Some []))) \<and>
   length (snd (POST example_env example_directory example_resend
      (Some (body_of (ann_payload (Some [])))))) = 1 \<and>
   mail_subject (hd (snd (POST example_env example_directory example_resend
      (Some (body_of (ann_payload (Some []))))))) = ''New message from Ann'' \<and>
   \<not> includes_str (mail_text (hd (snd (POST example_env example_directory example_resend
      (Some (body_of (ann_payload (Some [])))))))) ''New message from''"
proof -
  have v: "spec_valid (ann_payload (Some []))"
    using spec_valid_ann(1) [of "[]"] by simp
  have p: "sendSchema_parse (body_of (ann_payload (Some []))) = Inr (ann_payload (Some []))"
    using v by (rule parse_body_of)
  have a: "accepted (body_of (ann_payload (Some [])))"
    using p by (simp add: accepted_def)
  have d: "example_directory (staffId (ann_payload (Some []))) =
      Some \<lparr>firstName = ''Gus'', staff_email = ''gus@yourdomain.com''\<rparr>"
    by (simp add: ann_payload_def directory_Gus)
  have n: "or_else (subject (ann_payload (Some [])))
      (''New message from '' @ name (ann_payload (Some []))) = ''New message from Ann''"
    by (simp add: ann_payload_def or_else_def if_truthy_def)
  show ?thesis
    unfolding POST_sends [where dir = example_directory, OF p d construct_example]
    using renderText_ann_empty n a by simp
qed

end
